theory Spec2Isabelle
  imports Main
begin

section \<open>Go library functions used by the runners\<close>

text \<open>
  Go strings are byte sequences, as \<^typ>\<open>string\<close> is. An \<open>error\<close> value is modelled by
  its kind and message: \<open>errors.New\<close> and \<open>fmt.Errorf\<close> (without a wrapping verb) build the
  same kind of value, \<open>net.UnknownNetworkError\<close> is a kind of its own. A \<open>nil\<close> error is
  \<open>None\<close> of \<open>error option\<close>; a result pair \<open>(value, error)\<close> is \<open>error + value\<close>.
\<close>

datatype error = errors_New string | UnknownNetworkError string

definition fmt_Errorf :: "string \<Rightarrow> error" where
  "fmt_Errorf s = errors_New s"

text \<open>The method \<open>Error()\<close> of an error gives its message.\<close>

fun error_Error :: "error \<Rightarrow> string" where
  "error_Error (errors_New s) = s"
| "error_Error (UnknownNetworkError n) = ''unknown network '' @ n"

text \<open>\<open>strings.HasPrefix\<close>, that is \<open>len(s) >= len(prefix) && s[:len(prefix)] == prefix\<close>,
  and \<open>strings.TrimPrefix\<close>, which cuts the prefix off a string that has it.\<close>

definition HasPrefix :: "string \<Rightarrow> string \<Rightarrow> bool" where
  "HasPrefix s pre = (length pre \<le> length s \<and> take (length pre) s = pre)"

definition TrimPrefix :: "string \<Rightarrow> string \<Rightarrow> string" where
  "TrimPrefix s pre = (if HasPrefix s pre then drop (length pre) s else s)"

text \<open>The verb \<open>%d\<close> of \<open>fmt.Sprintf\<close>: the decimal digits, after a minus sign for a
  negative number.\<close>

fun digits :: "nat \<Rightarrow> string" where
  "digits n = (if n < 10 then [''0123456789'' ! n]
               else digits (n div 10) @ [''0123456789'' ! (n mod 10)])"

declare digits.simps [simp del]

definition Sprintf_d :: "int \<Rightarrow> string" where
  "Sprintf_d i = (if i < 0 then CHR ''-'' # digits (nat (- i)) else digits (nat i))"

subsection \<open>\<open>path.Clean\<close> and \<open>path.Join\<close>\<close>

text \<open>
  The runners call the library; these are the library's functions as the Go distribution
  writes them. \<open>path.Clean\<close> reads the path from left to right, \<open>r\<close> being the index of the
  next byte to read, and writes into a buffer \<open>out\<close> with the write index \<open>out.w\<close>;
  \<open>dotdot\<close> is the index in the buffer where backtracking over a \<open>..\<close> element must stop.
  Here the buffer is the list of the bytes written, so that \<open>out.w\<close> is its length, and the
  path is the list of the bytes not yet read.
  \<^verbatim>\<open>
  func Clean(path string) string {
      if path == "" { return "." }
      rooted := path[0] == '/'
      n := len(path)
      out := lazybuf{s: path}
      r, dotdot := 0, 0
      if rooted { out.append('/'); r, dotdot = 1, 1 }
      for r < n {
          switch {
          case path[r] == '/':
              r++
          case path[r] == '.' && (r+1 == n || path[r+1] == '/'):
              r++
          case path[r] == '.' && path[r+1] == '.' && (r+2 == n || path[r+2] == '/'):
              r += 2
              switch {
              case out.w > dotdot:
                  out.w--
                  for out.w > dotdot && out.index(out.w) != '/' { out.w-- }
              case !rooted:
                  if out.w > 0 { out.append('/') }
                  out.append('.'); out.append('.')
                  dotdot = out.w
              }
          default:
              if rooted && out.w != 1 || !rooted && out.w != 0 { out.append('/') }
              for ; r < n && path[r] != '/'; r++ { out.append(path[r]) }
          }
      }
      if out.w == 0 { return "." }
      return out.string()
  }
  \<close>
  Backtracking, from the decremented write index on: the result is the new write index.
\<close>

function backtrack :: "string \<Rightarrow> nat \<Rightarrow> nat \<Rightarrow> nat" where
  "backtrack out dotdot w =
     (if w > dotdot \<and> out ! w \<noteq> CHR ''/'' then backtrack out dotdot (w - 1) else w)"
  by pat_completeness auto
termination
  by (relation "measure (\<lambda>(out, dotdot, w). w)") auto

declare backtrack.simps [simp del]

text \<open>The loop \<open>for r < n\<close> of \<open>path.Clean\<close>, on the bytes not yet read. The state is the
  buffer and \<open>dotdot\<close>. The four branches are those of the source's \<open>switch\<close>: an empty
  element, a \<open>.\<close> element, a \<open>..\<close> element, a real element.\<close>

function clean_loop :: "bool \<Rightarrow> string \<times> nat \<Rightarrow> string \<Rightarrow> string \<times> nat" where
  "clean_loop rooted (out, dotdot) [] = (out, dotdot)"
| "clean_loop rooted (out, dotdot) (c # rest) =
     (if c = CHR ''/'' then clean_loop rooted (out, dotdot) rest
      else if c = CHR ''.'' \<and> (rest = [] \<or> hd rest = CHR ''/'') then
        clean_loop rooted (out, dotdot) rest
      else if c = CHR ''.'' \<and> hd rest = CHR ''.'' \<and> (tl rest = [] \<or> hd (tl rest) = CHR ''/'') then
        (if length out > dotdot then
           clean_loop rooted (take (backtrack out dotdot (length out - 1)) out, dotdot) (tl rest)
         else if \<not> rooted then
           (let out' = (if length out > 0 then out @ ''/'' else out) @ ''..''
            in clean_loop rooted (out', length out') (tl rest))
         else clean_loop rooted (out, dotdot) (tl rest))
      else
        (let out' = (if rooted \<and> length out \<noteq> 1 \<or> \<not> rooted \<and> length out \<noteq> 0
                     then out @ ''/'' else out)
         in clean_loop rooted (out' @ takeWhile (\<lambda>x. x \<noteq> CHR ''/'') (c # rest), dotdot)
              (dropWhile (\<lambda>x. x \<noteq> CHR ''/'') (c # rest))))"
  by pat_completeness auto
termination
proof (relation "measure (\<lambda>(rooted, st, p). length p)")
  show "wf (measure (\<lambda>(rooted, st, p). length p))" by simp
next
  fix rooted :: bool and out :: string and dotdot :: nat and c :: char and rest :: string
    and x :: string
  assume "c \<noteq> CHR ''/''"
  have "length (dropWhile (\<lambda>x. x \<noteq> CHR ''/'') rest) \<le> length rest"
    by (rule length_dropWhile_le)
  then show "((rooted, (x @ takeWhile (\<lambda>x. x \<noteq> CHR ''/'') (c # rest), dotdot),
               dropWhile (\<lambda>x. x \<noteq> CHR ''/'') (c # rest)),
              rooted, (out, dotdot), c # rest) \<in> measure (\<lambda>(rooted, st, p). length p)"
    using \<open>c \<noteq> CHR ''/''\<close> by simp
qed auto

declare clean_loop.simps(2) [simp del]

definition Clean :: "string \<Rightarrow> string" where
  "Clean path =
     (if path = [] then ''.''
      else
        (let rooted = (hd path = CHR ''/'');
             st = clean_loop rooted (if rooted then (''/'', 1) else ([], 0))
                    (if rooted then tl path else path)
         in if length (fst st) = 0 then ''.'' else fst st))"

text \<open>\<open>path.Join\<close>: the elements are written into a buffer with a slash between them, an
  empty element being skipped while the buffer is empty, and the buffer is cleaned. With no
  byte at all in the elements the result is the empty string.
  \<^verbatim>\<open>
  func Join(elem ...string) string {
      size := 0
      for _, e := range elem { size += len(e) }
      if size == 0 { return "" }
      buf := make([]byte, 0, size+len(elem)-1)
      for _, e := range elem {
          if len(buf) > 0 || e != "" {
              if len(buf) > 0 { buf = append(buf, '/') }
              buf = append(buf, e...)
          }
      }
      return Clean(string(buf))
  }
  \<close>\<close>

fun join_buf :: "string \<Rightarrow> string list \<Rightarrow> string" where
  "join_buf buf [] = buf"
| "join_buf buf (e # es) =
     (if length buf > 0 \<or> e \<noteq> [] then
        join_buf ((if length buf > 0 then buf @ ''/'' else buf) @ e) es
      else join_buf buf es)"

definition Join :: "string list \<Rightarrow> string" where
  "Join elem = (if sum_list (map length elem) = 0 then [] else Clean (join_buf [] elem))"

subsection \<open>Addresses of package \<open>net\<close>\<close>

datatype Addr =
    TCPAddr (IP: "nat list") (Port: int) (Zone: string)
  | UnixAddr (Name: string) (Net: string)

text \<open>\<open>net.ResolveUnixAddr\<close> accepts the three Unix networks and keeps the address as the
  name; on any other network it fails with \<open>UnknownNetworkError\<close>.\<close>

definition ResolveUnixAddr :: "string \<Rightarrow> string \<Rightarrow> error + Addr" where
  "ResolveUnixAddr network address =
     (if network = ''unix'' \<or> network = ''unixgram'' \<or> network = ''unixpacket''
      then Inr (UnixAddr address network)
      else Inl (UnknownNetworkError network))"

subsection \<open>Requests to the operating system and to the container engine\<close>

text \<open>The runners act on the outside world through these requests. An operation of a
  runner returns the requests it issued, in order, next to its result; what the outside
  world answers is an argument of the operation.\<close>

datatype call =
    Process_Kill int
  | ContainerStop string
  | RemoveAll string
  | Client_Close nat

text \<open>The part of \<open>exec.Cmd\<close> the runners use. \<open>Process\<close> is \<open>nil\<close> until the command has
  been started; the process is identified by its pid.\<close>

record Cmd =
  Path :: string
  Args :: "string list"
  Env :: "string list"
  Process :: "int option"

section \<open>The local command runner (\<open>cmd_runner.go\<close>)\<close>

text \<open>A reader handle (\<open>io.ReadCloser\<close>) is a number. Go sets a field that a composite
  literal does not mention to its zero value, so \<open>pid\<close> is 0 after construction.\<close>

record CmdRunner =
  cmd :: Cmd
  stdout :: nat
  stderr :: nat
  path :: string
  pid :: int

definition NewCmdRunner :: "(error + nat) \<Rightarrow> (error + nat) \<Rightarrow> Cmd \<Rightarrow> error + CmdRunner" where
  "NewCmdRunner StdoutPipe StderrPipe cmd0 =
     (case StdoutPipe of
        Inl err \<Rightarrow> Inl err
      | Inr out \<Rightarrow>
          (case StderrPipe of
             Inl err \<Rightarrow> Inl err
           | Inr errp \<Rightarrow>
               Inr \<lparr>cmd = cmd0, stdout = out, stderr = errp, path = Path cmd0, pid = 0\<rparr>))"

text \<open>\<open>Start\<close>: the argument is what \<open>c.cmd.Start()\<close> answers, an error or the pid of the
  new process, which \<open>exec.Cmd\<close> then holds in \<open>Process\<close>.\<close>

definition CmdRunner_Start :: "(error + int) \<Rightarrow> CmdRunner \<Rightarrow> error option \<times> CmdRunner" where
  "CmdRunner_Start spawned c =
     (case spawned of
        Inl err \<Rightarrow> (Some err, c)
      | Inr p \<Rightarrow> (None, c\<lparr>cmd := (cmd c)\<lparr>Process := Some p\<rparr>, pid := p\<rparr>))"

definition CmdRunner_Wait :: "error option \<Rightarrow> CmdRunner \<Rightarrow> error option \<times> CmdRunner" where
  "CmdRunner_Wait waited c = (waited, c)"

text \<open>\<open>Kill\<close>: the argument is what \<open>Process.Kill()\<close> answers when it is called.\<close>

definition CmdRunner_Kill ::
  "error option \<Rightarrow> CmdRunner \<Rightarrow> (error option \<times> call list) \<times> CmdRunner" where
  "CmdRunner_Kill killed c =
     (case Process (cmd c) of
        Some p \<Rightarrow> ((killed, [Process_Kill p]), c)
      | None \<Rightarrow> ((None, []), c))"

text \<open>\<open>ResolveAddr\<close>: \<open>net.ResolveTCPAddr\<close> parses the address and may look a host name
  up, so it is an argument.\<close>

definition CmdRunner_ResolveAddr ::
  "(string \<Rightarrow> string \<Rightarrow> error + Addr) \<Rightarrow> CmdRunner \<Rightarrow> string \<Rightarrow> string \<Rightarrow> error + Addr" where
  "CmdRunner_ResolveAddr ResolveTCPAddr c network address =
     (if network = ''tcp'' then ResolveTCPAddr ''tcp'' address
      else if network = ''unix'' then ResolveUnixAddr ''unix'' address
      else Inl (fmt_Errorf (''Unknown address type: '' @ address)))"

definition CmdRunner_Name :: "CmdRunner \<Rightarrow> string" where
  "CmdRunner_Name c = path c"

definition CmdRunner_ID :: "CmdRunner \<Rightarrow> string" where
  "CmdRunner_ID c = Sprintf_d (pid c)"

section \<open>The container runner (\<open>container_runner.go\<close>)\<close>

subsection \<open>Types of the engine's API\<close>

text \<open>Package \<open>mount\<close>: the fields and constants of a mount.\<close>

datatype mount_Type = TypeBind | TypeVolume | TypeTmpfs | TypeNamedPipe | TypeCluster

datatype mount_Propagation =
    PropagationRPrivate | PropagationPrivate
  | PropagationRShared | PropagationShared
  | PropagationRSlave | PropagationSlave

datatype mount_Consistency =
    ConsistencyFull | ConsistencyCached | ConsistencyDelegated | ConsistencyDefault

record mount_BindOptions =
  Propagation :: mount_Propagation
  NonRecursive :: bool

record mount_Mount =
  Type :: mount_Type
  Source :: string
  Target :: string
  ReadOnly :: bool
  BindOptions :: "mount_BindOptions option"
  Consistency :: mount_Consistency

text \<open>Package \<open>container\<close>: of \<open>container.Config\<close> the runner reads \<open>Image\<close> and writes
  \<open>Env\<close> (the fields \<open>ContainerImage\<close> and \<open>ContainerEnv\<close> here); of
  \<open>container.HostConfig\<close> it extends \<open>Mounts\<close>. The status that \<open>ContainerWait\<close> delivers
  holds an optional error with a message.\<close>

record container_Config =
  ContainerImage :: string
  ContainerEnv :: "string list"

record container_HostConfig =
  Mounts :: "mount_Mount list"

datatype container_WaitExitError = WaitExitError (Message: string)

record container_WaitResponse =
  Error :: "container_WaitExitError option"
  StatusCode :: int

text \<open>Modelled from the spec: the type \<open>config.ContainerConfig\<close> is declared outside the
  files at hand. The configuration bundle holds the host config with its mount list, the
  container config with image and environment, a network config, which the runner only
  passes on, and the optional group id of the Unix socket.\<close>

record config_ContainerConfig =
  HostConfig :: container_HostConfig
  ContainerConfig :: container_Config
  NetworkConfig :: nat
  UnixSocketGroup :: int

text \<open>Modelled from the spec: \<open>constants.EnvUnixSocketDir\<close>, declared outside the files at
  hand, is the name of the variable that announces the rendezvous directory.\<close>

definition EnvUnixSocketDir :: string where
  "EnvUnixSocketDir = ''PLUGIN_UNIX_SOCKET_DIR''"

text \<open>Modelled from the spec: \<open>constants.EnvUnixSocketGroup\<close>, declared outside the files at
  hand, is the name of the variable that carries the decimal group id.\<close>

definition EnvUnixSocketGroup :: string where
  "EnvUnixSocketGroup = ''PLUGIN_UNIX_SOCKET_GROUP''"

subsection \<open>The runner\<close>

text \<open>The engine client is a number, as a reader handle is; \<open>c_stdout\<close> and \<open>c_stderr\<close> are
  \<open>nil\<close> until \<open>Start\<close> has made the pipes. The fields \<open>c_cmd\<close>, \<open>c_stdout\<close>, \<open>c_stderr\<close>,
  \<open>c_image\<close> and \<open>c_id\<close> are \<open>cmd\<close>, \<open>stdout\<close>, \<open>stderr\<close>, \<open>image\<close> and \<open>id\<close> of the
  source. \<open>c_cmd\<close> and \<open>config\<close> are
  pointers to the caller's values in the source: the runner holds them as the constructor
  has left them.\<close>

record ContainerRunner =
  c_cmd :: Cmd
  config :: config_ContainerConfig
  hostSocketDir :: string
  dockerClient :: nat
  c_stdout :: "nat option"
  c_stderr :: "nat option"
  c_image :: string
  c_id :: string

definition containerSocketDir :: string where
  "containerSocketDir = ''/tmp''"

text \<open>\<open>NewContainerRunner\<close>: the first argument is what \<open>client.NewClientWithOpts\<close>
  answers.\<close>

definition NewContainerRunner ::
  "(error + nat) \<Rightarrow> Cmd \<Rightarrow> config_ContainerConfig \<Rightarrow> string \<Rightarrow> error + ContainerRunner" where
  "NewContainerRunner NewClientWithOpts cmd0 cfg0 hostDir =
     (case NewClientWithOpts of
        Inl err \<Rightarrow> Inl err
      | Inr client \<Rightarrow>
          (let cfg1 = cfg0\<lparr>HostConfig := (HostConfig cfg0)\<lparr>Mounts :=
                        Mounts (HostConfig cfg0) @
                          [\<lparr>Type = TypeBind,
                            Source = hostDir,
                            Target = containerSocketDir,
                            ReadOnly = False,
                            BindOptions = Some \<lparr>Propagation = PropagationRShared,
                                                 NonRecursive = True\<rparr>,
                            Consistency = ConsistencyDefault\<rparr>]\<rparr>\<rparr>;
               cmd1 = cmd0\<lparr>Env := Env cmd0 @ [EnvUnixSocketDir @ ''='' @ containerSocketDir]\<rparr>;
               cmd2 = (if UnixSocketGroup cfg1 \<noteq> 0
                       then cmd1\<lparr>Env := Env cmd1 @
                              [EnvUnixSocketGroup @ ''='' @ Sprintf_d (UnixSocketGroup cfg1)]\<rparr>
                       else cmd1);
               cfg2 = cfg1\<lparr>ContainerConfig := (ContainerConfig cfg1)\<lparr>ContainerEnv := Env cmd2\<rparr>\<rparr>
           in Inr \<lparr>c_cmd = cmd2, config = cfg2, hostSocketDir = hostDir, dockerClient = client,
                    c_stdout = None, c_stderr = None,
                    c_image = ContainerImage (ContainerConfig cfg2), c_id = []\<rparr>))"

text \<open>\<open>Start\<close>: the arguments are what the engine answers to \<open>ContainerCreate\<close> (an error or
  the id of the response), to \<open>ContainerStart\<close> and to \<open>ContainerLogs\<close> (an error or the log
  reader), and the read ends of the two pipes that \<open>io.Pipe\<close> makes. The task that copies
  the log stream into the pipes runs beside the runner and writes no field of it.\<close>

definition ContainerRunner_Start ::
  "(error + string) \<Rightarrow> error option \<Rightarrow> (error + nat) \<Rightarrow> nat \<times> nat \<Rightarrow> ContainerRunner
     \<Rightarrow> error option \<times> ContainerRunner" where
  "ContainerRunner_Start created started logs pipes c =
     (case created of
        Inl err \<Rightarrow> (Some err, c)
      | Inr resp_ID \<Rightarrow>
          (let c1 = c\<lparr>c_id := resp_ID\<rparr>
           in case started of
                Some err \<Rightarrow> (Some err, c1)
              | None \<Rightarrow>
                  (case logs of
                     Inl err \<Rightarrow> (Some err, c1)
                   | Inr logReader \<Rightarrow>
                       (None, c1\<lparr>c_stdout := Some (fst pipes), c_stderr := Some (snd pipes)\<rparr>))))"

text \<open>\<open>Wait\<close>: the \<open>select\<close> receives from the error channel or from the status channel,
  whichever is ready first; the argument is what it receives. A \<open>nil\<close> from the error
  channel leaves the \<open>select\<close> and reaches the last \<open>return nil\<close>.\<close>

datatype received = errCh "error option" | statusCh container_WaitResponse

definition ContainerRunner_Wait :: "received \<Rightarrow> ContainerRunner \<Rightarrow> error option \<times> ContainerRunner" where
  "ContainerRunner_Wait r c =
     (case r of
        errCh err \<Rightarrow> (case err of Some e \<Rightarrow> (Some e, c) | None \<Rightarrow> (None, c))
      | statusCh st \<Rightarrow>
          (case Error st of
             Some e \<Rightarrow> (Some (errors_New (Message e)), c)
           | None \<Rightarrow> (None, c)))"

text \<open>\<open>Kill\<close>: the argument is what the engine answers to \<open>ContainerStop\<close> when it is asked.
  The two deferred calls run after the result is computed, the last deferred first.\<close>

definition ContainerRunner_Kill ::
  "error option \<Rightarrow> ContainerRunner \<Rightarrow> (error option \<times> call list) \<times> ContainerRunner" where
  "ContainerRunner_Kill stopped c =
     (let (result, calls) =
            (if c_id c \<noteq> [] then (stopped, [ContainerStop (c_id c)]) else (None, []))
      in ((result, calls @ [RemoveAll (hostSocketDir c), Client_Close (dockerClient c)]), c))"

definition ContainerRunner_ResolveAddr :: "ContainerRunner \<Rightarrow> string \<Rightarrow> string \<Rightarrow> error + Addr" where
  "ContainerRunner_ResolveAddr c network address =
     (if network = ''unix'' then
        (if \<not> HasPrefix address ''PLUGIN_UNIX_SOCKET_DIR:'' then
           Inl (errors_New ''plugin is running inside container but needs an update to be compatible'')
         else
           ResolveUnixAddr ''unix''
             (Join [hostSocketDir c, TrimPrefix address ''PLUGIN_UNIX_SOCKET_DIR:'']))
      else Inl (fmt_Errorf (''unsupported address: '' @ network @ '', '' @ address)))"

definition ContainerRunner_Name :: "ContainerRunner \<Rightarrow> string" where
  "ContainerRunner_Name c = c_image c"

definition ContainerRunner_ID :: "ContainerRunner \<Rightarrow> string" where
  "ContainerRunner_ID c = c_id c"

section \<open>Sequences of operations\<close>

text \<open>The operations that change or may change a runner, each with what the outside world
  answers to it, and a runner's state after a sequence of them.\<close>

datatype cmd_op =
    Cmd_Start "error + int"
  | Cmd_Wait "error option"
  | Cmd_Kill "error option"

fun cmd_step :: "cmd_op \<Rightarrow> CmdRunner \<Rightarrow> CmdRunner" where
  "cmd_step (Cmd_Start spawned) c = snd (CmdRunner_Start spawned c)"
| "cmd_step (Cmd_Wait waited) c = snd (CmdRunner_Wait waited c)"
| "cmd_step (Cmd_Kill killed) c = snd (CmdRunner_Kill killed c)"

fun cmd_run :: "cmd_op list \<Rightarrow> CmdRunner \<Rightarrow> CmdRunner" where
  "cmd_run [] c = c"
| "cmd_run (x # xs) c = cmd_run xs (cmd_step x c)"

datatype container_op =
    Container_Start "error + string" "error option" "error + nat" "nat \<times> nat"
  | Container_Wait received
  | Container_Kill "error option"

fun container_step :: "container_op \<Rightarrow> ContainerRunner \<Rightarrow> ContainerRunner" where
  "container_step (Container_Start created started logs pipes) c =
     snd (ContainerRunner_Start created started logs pipes c)"
| "container_step (Container_Wait r) c = snd (ContainerRunner_Wait r c)"
| "container_step (Container_Kill stopped) c = snd (ContainerRunner_Kill stopped c)"

fun container_run :: "container_op list \<Rightarrow> ContainerRunner \<Rightarrow> ContainerRunner" where
  "container_run [] c = c"
| "container_run (x # xs) c = container_run xs (container_step x c)"

text \<open>The operations that set the identity of a runner: a \<open>Start\<close> of the local runner
  whose process is spawned, and a \<open>Start\<close> of the container runner for which the engine creates
  the container, whatever happens later in that \<open>Start\<close>.\<close>

fun spawns :: "cmd_op \<Rightarrow> bool" where
  "spawns (Cmd_Start (Inr p)) = True"
| "spawns x = False"

fun creates :: "container_op \<Rightarrow> bool" where
  "creates (Container_Start (Inr resp_ID) started logs pipes) = True"
| "creates x = False"

section \<open>The operating system and the engine behind the requests\<close>














section \<open>Notions used in the statements\<close>

text \<open>\<open>strings.Contains\<close>: the substring starts at some position of the string.\<close>

fun Contains :: "string \<Rightarrow> string \<Rightarrow> bool" where
  "Contains [] sub = (sub = [])"
| "Contains (c # s) sub = (HasPrefix (c # s) sub \<or> Contains s sub)"

text \<open>A basename relative to the container's rendezvous directory: one path element, that
  is a non-empty name without a slash, other than the two special elements.\<close>

definition valid_basename :: "string \<Rightarrow> bool" where
  "valid_basename b = (b \<noteq> [] \<and> CHR ''/'' \<notin> set b \<and> b \<noteq> ''.'' \<and> b \<noteq> ''..'')"

text \<open>The tests of the second and third branch of the loop of \<open>path.Clean\<close>, and the state
  in which the loop ends on a non-empty path.\<close>

definition dot_elem :: "char \<Rightarrow> string \<Rightarrow> bool" where
  "dot_elem c rest = (c = CHR ''.'' \<and> (rest = [] \<or> hd rest = CHR ''/''))"

definition dotdot_elem :: "char \<Rightarrow> string \<Rightarrow> bool" where
  "dotdot_elem c rest =
     (c = CHR ''.'' \<and> hd rest = CHR ''.'' \<and> (tl rest = [] \<or> hd (tl rest) = CHR ''/''))"

definition clean_state :: "string \<Rightarrow> string \<times> nat" where
  "clean_state p =
     clean_loop (hd p = CHR ''/'') (if hd p = CHR ''/'' then (''/'', 1) else ([], 0))
       (if hd p = CHR ''/'' then tl p else p)"

text \<open>The elements of a path are the pieces between its slashes. A path is in cleaned form
  when it is \<open>.\<close>, or \<open>/\<close>, or when, after the leading slash of a rooted path, no element
  is empty and no element is \<open>.\<close>: it has no doubled slash, no slash at its end and no \<open>.\<close>
  element.\<close>

fun elems :: "string \<Rightarrow> string list" where
  "elems [] = [[]]"
| "elems (c # s) =
     (if c = CHR ''/'' then [] # elems s
      else (case elems s of [] \<Rightarrow> [[c]] | e # es \<Rightarrow> (c # e) # es))"

definition good :: "string \<Rightarrow> bool" where
  "good s = (s = [] \<or> (\<forall>e\<in>set (elems s). e \<noteq> [] \<and> e \<noteq> ''.''))"

fun cleaned :: "string \<Rightarrow> bool" where
  "cleaned [] = False"
| "cleaned (c # s) =
     (c # s = ''.'' \<or> c # s = ''/'' \<or> good (if c = CHR ''/'' then s else c # s))"

text \<open>What the loop of \<open>path.Clean\<close> keeps true of its buffer and of \<open>dotdot\<close>.\<close>

definition loop_inv :: "bool \<Rightarrow> string \<times> nat \<Rightarrow> bool" where
  "loop_inv rooted st =
     (if rooted then fst st \<noteq> [] \<and> hd (fst st) = CHR ''/'' \<and> snd st = 1 \<and> good (tl (fst st))
      else good (fst st) \<and> snd st \<le> length (fst st) \<and> good (take (snd st) (fst st)))"

text \<open>The values of the scenarios: a command that has not been started, a configuration
  bundle with a group id, the local runner made from the command with the pipes 3 and 4,
  and the container runner made from the command, the bundle without a group id, the host
  directory \<open>/tmp/abc\<close> and the engine client 7.\<close>

definition scenario_cmd :: Cmd where
  "scenario_cmd =
     \<lparr>Path = ''/bin/sh'', Args = [''/bin/sh'', ''-c'', ''echo hello''], Env = [''HOME=/root''],
      Process = None\<rparr>"

definition scenario_config :: "int \<Rightarrow> config_ContainerConfig" where
  "scenario_config gid =
     \<lparr>HostConfig = \<lparr>Mounts = []\<rparr>,
      ContainerConfig = \<lparr>ContainerImage = ''plugin-image:latest'', ContainerEnv = []\<rparr>,
      NetworkConfig = 0, UnixSocketGroup = gid\<rparr>"

definition scenario_CmdRunner :: CmdRunner where
  "scenario_CmdRunner = \<lparr>cmd = scenario_cmd, stdout = 3, stderr = 4, path = ''/bin/sh'', pid = 0\<rparr>"

definition scenario_ContainerRunner :: "string \<Rightarrow> ContainerRunner" where
  "scenario_ContainerRunner hostDir =
     \<lparr>c_cmd = scenario_cmd\<lparr>Env := [''HOME=/root'', ''PLUGIN_UNIX_SOCKET_DIR=/tmp'']\<rparr>,
      config =
        \<lparr>HostConfig = \<lparr>Mounts =
           [\<lparr>Type = TypeBind, Source = hostDir, Target = ''/tmp'', ReadOnly = False,
             BindOptions = Some \<lparr>Propagation = PropagationRShared, NonRecursive = True\<rparr>,
             Consistency = ConsistencyDefault\<rparr>]\<rparr>,
         ContainerConfig =
           \<lparr>ContainerImage = ''plugin-image:latest'',
            ContainerEnv = [''HOME=/root'', ''PLUGIN_UNIX_SOCKET_DIR=/tmp'']\<rparr>,
         NetworkConfig = 0, UnixSocketGroup = 0\<rparr>,
      hostSocketDir = hostDir, dockerClient = 7, c_stdout = None, c_stderr = None,
      c_image = ''plugin-image:latest'', c_id = []\<rparr>"


section \<open>Properties of the library functions\<close>

lemma HasPrefix_append [simp]: "HasPrefix (pre @ s) pre"
  by (simp add: HasPrefix_def)

lemma TrimPrefix_append [simp]: "TrimPrefix (pre @ s) pre = s"
  by (simp add: TrimPrefix_def)

lemma ResolveUnixAddr_unix [simp]: "ResolveUnixAddr ''unix'' a = Inr (UnixAddr a ''unix'')"
  by (simp add: ResolveUnixAddr_def)

lemma digits_not_Nil: "digits n \<noteq> []"
  by (subst digits.simps) simp

lemma Sprintf_d_not_Nil: "Sprintf_d i \<noteq> []"
  by (simp add: Sprintf_d_def digits_not_Nil)

lemma Sprintf_d_0: "Sprintf_d 0 = ''0''"
  by (simp add: Sprintf_d_def digits.simps)

lemma NewCmdRunner_Inr:
  "NewCmdRunner (Inr out) (Inr errp) callerCmd =
     Inr \<lparr>cmd = callerCmd, stdout = out, stderr = errp, path = Path callerCmd, pid = 0\<rparr>"
  by (simp add: NewCmdRunner_def)

lemma NewCmdRunner_scenario:
  "NewCmdRunner (Inr 3) (Inr 4) scenario_cmd = Inr scenario_CmdRunner"
  by (simp add: NewCmdRunner_def scenario_cmd_def scenario_CmdRunner_def)

lemma NewContainerRunner_scenario:
  "NewContainerRunner (Inr 7) scenario_cmd (scenario_config 0) hostDir =
     Inr (scenario_ContainerRunner hostDir)"
  by (simp add: NewContainerRunner_def scenario_cmd_def scenario_config_def
      scenario_ContainerRunner_def EnvUnixSocketDir_def containerSocketDir_def Let_def)

subsection \<open>The loop of \<open>path.Clean\<close>, branch by branch\<close>

lemma loop_slash:
  "clean_loop rooted st (CHR ''/'' # rest) = clean_loop rooted st rest"
  by (cases st) (simp add: clean_loop.simps(2))

lemma loop_dot:
  "dot_elem c rest \<Longrightarrow> clean_loop rooted st (c # rest) = clean_loop rooted st rest"
  by (cases st) (simp add: clean_loop.simps(2) dot_elem_def)

lemma loop_dotdot:
  assumes "\<not> dot_elem c rest" and "dotdot_elem c rest"
  shows "clean_loop rooted (out, dotdot) (c # rest) =
     (if length out > dotdot then
        clean_loop rooted (take (backtrack out dotdot (length out - 1)) out, dotdot) (tl rest)
      else if \<not> rooted then
        clean_loop rooted ((if length out > 0 then out @ ''/'' else out) @ ''..'',
                           length ((if length out > 0 then out @ ''/'' else out) @ ''..'')) (tl rest)
      else clean_loop rooted (out, dotdot) (tl rest))"
proof -
  have a: "c \<noteq> CHR ''/''" using assms(2) by (auto simp add: dotdot_elem_def)
  have b: "\<not> (c = CHR ''.'' \<and> (rest = [] \<or> hd rest = CHR ''/''))"
    using assms(1) by (simp add: dot_elem_def)
  have d: "c = CHR ''.'' \<and> hd rest = CHR ''.'' \<and> (tl rest = [] \<or> hd (tl rest) = CHR ''/'')"
    using assms(2) by (simp add: dotdot_elem_def)
  show ?thesis
    by (subst clean_loop.simps(2), subst if_not_P[OF a], subst if_not_P[OF b], subst if_P[OF d])
      (simp only: Let_def)
qed

lemma loop_elem:
  assumes "c \<noteq> CHR ''/''" and "\<not> dot_elem c rest" and "\<not> dotdot_elem c rest"
  shows "clean_loop rooted (out, dotdot) (c # rest) =
     clean_loop rooted
       ((if rooted \<and> length out \<noteq> 1 \<or> \<not> rooted \<and> length out \<noteq> 0 then out @ ''/'' else out)
          @ takeWhile (\<lambda>x. x \<noteq> CHR ''/'') (c # rest), dotdot)
       (dropWhile (\<lambda>x. x \<noteq> CHR ''/'') (c # rest))"
proof -
  have b: "\<not> (c = CHR ''.'' \<and> (rest = [] \<or> hd rest = CHR ''/''))"
    using assms(2) by (simp add: dot_elem_def)
  have d: "\<not> (c = CHR ''.'' \<and> hd rest = CHR ''.'' \<and> (tl rest = [] \<or> hd (tl rest) = CHR ''/''))"
    using assms(3) by (simp add: dotdot_elem_def)
  show ?thesis
    by (subst clean_loop.simps(2), subst if_not_P[OF assms(1)], subst if_not_P[OF b],
        subst if_not_P[OF d])
      (simp only: Let_def)
qed

subsection \<open>Reading on after a slash\<close>

lemma takeWhile_append_stop: "\<not> P y \<Longrightarrow> takeWhile P (xs @ y # ys) = takeWhile P xs"
  by (induction xs) auto

lemma dropWhile_append_stop: "\<not> P y \<Longrightarrow> dropWhile P (xs @ y # ys) = dropWhile P xs @ y # ys"
  by (induction xs) auto

lemma dot_elem_append: "dot_elem c (rest @ CHR ''/'' # ys) = dot_elem c rest"
  by (cases rest) (simp_all add: dot_elem_def)

lemma dotdot_elem_append:
  "\<not> dot_elem c rest \<Longrightarrow> dotdot_elem c (rest @ CHR ''/'' # ys) = dotdot_elem c rest"
  by (cases rest; cases "tl rest") (auto simp add: dot_elem_def dotdot_elem_def)

lemma tl_append_elem:
  "\<not> dot_elem c rest \<Longrightarrow> dotdot_elem c rest \<Longrightarrow> tl (rest @ zs) = tl rest @ zs"
  by (cases rest) (auto simp add: dot_elem_def dotdot_elem_def)

text \<open>The loop reads a path up to a slash as it reads that part alone: what follows the
  slash does not change what the loop does before it.\<close>

lemma clean_loop_append:
  "clean_loop rooted st (xs @ CHR ''/'' # ys) =
     clean_loop rooted (clean_loop rooted st xs) (CHR ''/'' # ys)"
proof (induction rooted st xs rule: clean_loop.induct)
  case (1 rooted out dotdot)
  then show ?case by simp
next
  case (2 rooted out dotdot c rest)
  let ?zs = "CHR ''/'' # ys"
  consider (slash) "c = CHR ''/''"
    | (dot) "c \<noteq> CHR ''/''" "dot_elem c rest"
    | (dotdot) "c \<noteq> CHR ''/''" "\<not> dot_elem c rest" "dotdot_elem c rest"
    | (elem) "c \<noteq> CHR ''/''" "\<not> dot_elem c rest" "\<not> dotdot_elem c rest"
    by blast
  then show ?case
  proof cases
    case slash
    then show ?thesis using "2.IH"(1) by (simp add: loop_slash)
  next
    case dot
    have rb: "c = CHR ''.'' \<and> (rest = [] \<or> hd rest = CHR ''/'')"
      using dot(2) unfolding dot_elem_def .
    have "clean_loop rooted (out, dotdot) ((c # rest) @ ?zs) =
            clean_loop rooted (out, dotdot) (rest @ ?zs)"
      using dot by (simp add: loop_dot dot_elem_append)
    also have "\<dots> = clean_loop rooted (clean_loop rooted (out, dotdot) rest) ?zs"
      by (rule "2.IH"(2)[OF dot(1) rb])
    also have "clean_loop rooted (out, dotdot) rest = clean_loop rooted (out, dotdot) (c # rest)"
      using dot(2) by (simp add: loop_dot)
    finally show ?thesis .
  next
    case dotdot
    have rb: "\<not> (c = CHR ''.'' \<and> (rest = [] \<or> hd rest = CHR ''/''))"
      using dotdot(2) unfolding dot_elem_def .
    have rd: "c = CHR ''.'' \<and> hd rest = CHR ''.'' \<and> (tl rest = [] \<or> hd (tl rest) = CHR ''/'')"
      using dotdot(3) unfolding dotdot_elem_def .
    have d1: "\<not> dot_elem c (rest @ ?zs)" using dotdot by (simp add: dot_elem_append)
    have d2: "dotdot_elem c (rest @ ?zs)" using dotdot by (simp add: dotdot_elem_append)
    have t: "tl (rest @ ?zs) = tl rest @ ?zs" using dotdot(2,3) by (rule tl_append_elem)
    note L = loop_dotdot[OF d1 d2, of rooted out dotdot, unfolded t]
    note R = loop_dotdot[OF dotdot(2,3), of rooted out dotdot]
    show ?thesis
    proof (cases "dotdot < length out")
      case True
      show ?thesis
        unfolding append_Cons L R using True "2.IH"(3)[OF dotdot(1) rb rd True] by simp
    next
      case False
      show ?thesis
      proof (cases rooted)
        case True
        then have nn: "\<not> \<not> rooted" by simp
        show ?thesis
          unfolding append_Cons L R
          using False True "2.IH"(5)[OF dotdot(1) rb rd False nn] by simp
      next
        case nr: False
        show ?thesis
          unfolding append_Cons L R
          using False nr "2.IH"(4)[OF dotdot(1) rb rd False nr refl] by simp
      qed
    qed
  next
    case elem
    have rb: "\<not> (c = CHR ''.'' \<and> (rest = [] \<or> hd rest = CHR ''/''))"
      using elem(2) unfolding dot_elem_def .
    have rd: "\<not> (c = CHR ''.'' \<and> hd rest = CHR ''.'' \<and> (tl rest = [] \<or> hd (tl rest) = CHR ''/''))"
      using elem(3) unfolding dotdot_elem_def .
    have d1: "\<not> dot_elem c (rest @ ?zs)" using elem by (simp add: dot_elem_append)
    have d2: "\<not> dotdot_elem c (rest @ ?zs)" using elem by (simp add: dotdot_elem_append)
    have tw: "takeWhile (\<lambda>x. x \<noteq> CHR ''/'') (c # rest @ ?zs) =
                takeWhile (\<lambda>x. x \<noteq> CHR ''/'') (c # rest)"
      using takeWhile_append_stop[of "\<lambda>x. x \<noteq> CHR ''/''" "CHR ''/''" "c # rest" ys] by simp
    have dw: "dropWhile (\<lambda>x. x \<noteq> CHR ''/'') (c # rest @ ?zs) =
                dropWhile (\<lambda>x. x \<noteq> CHR ''/'') (c # rest) @ ?zs"
      using dropWhile_append_stop[of "\<lambda>x. x \<noteq> CHR ''/''" "CHR ''/''" "c # rest" ys] by simp
    note L = loop_elem[OF elem(1) d1 d2, of rooted out dotdot, unfolded tw dw]
    note R = loop_elem[OF elem, of rooted out dotdot]
    show ?thesis
      unfolding append_Cons L R using "2.IH"(6)[OF elem(1) rb rd refl] by simp
  qed
qed

subsection \<open>\<open>path.Clean\<close> on a path with a slash in it\<close>

lemma loop_Nil: "clean_loop rooted st [] = st"
  by (cases st) simp

lemma Clean_Nil: "Clean [] = ''.''"
  by (simp add: Clean_def)

lemma Clean_state: "p \<noteq> [] \<Longrightarrow> Clean p = (if fst (clean_state p) = [] then ''.'' else fst (clean_state p))"
  by (simp add: Clean_def clean_state_def Let_def)

lemma clean_state_append:
  assumes "u \<noteq> []"
  shows "clean_state (u @ CHR ''/'' # v) = clean_loop (hd u = CHR ''/'') (clean_state u) (CHR ''/'' # v)"
proof -
  have h: "hd (u @ CHR ''/'' # v) = hd u" and t: "tl (u @ CHR ''/'' # v) = tl u @ CHR ''/'' # v"
    using assms by simp_all
  show ?thesis
    unfolding clean_state_def h t by (simp add: clean_loop_append)
qed

lemma clean_state_slash: "clean_state (CHR ''/'' # v) = clean_loop True (''/'', 1) v"
  by (simp add: clean_state_def)

lemma Clean_double_slash: "Clean (u @ ''//'' @ v) = Clean (u @ ''/'' @ v)"
proof (cases u)
  case Nil
  then show ?thesis by (simp add: Clean_state clean_state_slash loop_slash)
next
  case (Cons a list)
  then have "u \<noteq> []" by simp
  then have "clean_state (u @ ''//'' @ v) = clean_state (u @ ''/'' @ v)"
    using clean_state_append[of u "CHR ''/'' # v"] clean_state_append[of u v]
    by (simp add: loop_slash)
  then show ?thesis using \<open>u \<noteq> []\<close> by (simp add: Clean_state)
qed

lemma Clean_dot_segment: "Clean (u @ ''/./'' @ v) = Clean (u @ ''/'' @ v)"
proof -
  have d: "dot_elem CHR ''.'' (CHR ''/'' # v)" by (simp add: dot_elem_def)
  show ?thesis
  proof (cases u)
    case Nil
    then show ?thesis by (simp add: Clean_state clean_state_slash loop_slash loop_dot[OF d])
  next
    case (Cons a list)
    then have "u \<noteq> []" by simp
    then have "clean_state (u @ ''/./'' @ v) = clean_state (u @ ''/'' @ v)"
      using clean_state_append[of u "CHR ''.'' # CHR ''/'' # v"] clean_state_append[of u v]
      by (simp add: loop_slash loop_dot[OF d])
    then show ?thesis using \<open>u \<noteq> []\<close> by (simp add: Clean_state)
  qed
qed

lemma basename_elem:
  assumes "valid_basename (c # rest)"
  shows "c \<noteq> CHR ''/''" "\<not> dot_elem c rest" "\<not> dotdot_elem c rest"
    "takeWhile (\<lambda>x. x \<noteq> CHR ''/'') (c # rest) = c # rest"
    "dropWhile (\<lambda>x. x \<noteq> CHR ''/'') (c # rest) = []"
proof -
  show "c \<noteq> CHR ''/''" using assms by (auto simp add: valid_basename_def)
  show "\<not> dot_elem c rest" using assms by (cases rest) (auto simp add: valid_basename_def dot_elem_def)
  show "\<not> dotdot_elem c rest" using assms
    by (cases rest; cases "tl rest") (auto simp add: valid_basename_def dotdot_elem_def)
  have "\<forall>x\<in>set (c # rest). x \<noteq> CHR ''/''" using assms by (auto simp add: valid_basename_def)
  then show "takeWhile (\<lambda>x. x \<noteq> CHR ''/'') (c # rest) = c # rest"
    and "dropWhile (\<lambda>x. x \<noteq> CHR ''/'') (c # rest) = []"
    by (simp_all only: takeWhile_eq_all_conv dropWhile_eq_Nil_conv)
qed

lemma clean_loop_basename:
  assumes "valid_basename b"
  shows "clean_loop rooted (out, dotdot) b =
     ((if rooted \<and> length out \<noteq> 1 \<or> \<not> rooted \<and> length out \<noteq> 0 then out @ ''/'' else out) @ b, dotdot)"
proof -
  obtain c rest where b: "b = c # rest" using assms by (cases b) (auto simp add: valid_basename_def)
  note e = basename_elem[OF assms[unfolded b]]
  show ?thesis
    unfolding b loop_elem[OF e(1,2,3)] e(4,5) by simp
qed

lemma Clean_append_basename:
  assumes "Clean h = h" and "h \<noteq> ''/''" and "h \<noteq> ''.''" and "valid_basename b"
  shows "Clean (h @ ''/'' @ b) = h @ ''/'' @ b"
proof -
  have ne: "h \<noteq> []" using assms(1,3) by (auto simp add: Clean_Nil)
  obtain out dotdot where st: "clean_state h = (out, dotdot)" by (cases "clean_state h")
  have out: "out = h" using assms(1,3) ne st by (simp add: Clean_state split: if_splits)
  have len: "(hd h = CHR ''/'') \<and> length h \<noteq> 1 \<or> \<not> (hd h = CHR ''/'') \<and> length h \<noteq> 0"
    using ne assms(2) by (cases h) auto
  have "clean_state (h @ CHR ''/'' # b) = clean_loop (hd h = CHR ''/'') (h, dotdot) b"
    using clean_state_append[OF ne, of b] st out by (simp add: loop_slash)
  also have "\<dots> = (h @ ''/'' @ b, dotdot)"
    unfolding clean_loop_basename[OF assms(4)] using len by simp
  finally show ?thesis using ne by (simp add: Clean_state)
qed

lemma Join_two: "Join [h, r] = (if h = [] then (if r = [] then [] else Clean r) else Clean (h @ ''/'' @ r))"
  by (simp add: Join_def)

lemma Clean_trailing_slash: "h \<noteq> [] \<Longrightarrow> Clean (h @ ''/'') = Clean h"
  using clean_state_append[of h "[]"] by (simp add: Clean_state loop_slash loop_Nil)

lemma ResolveAddr_unix_prefixed:
  "ContainerRunner_ResolveAddr c ''unix'' (''PLUGIN_UNIX_SOCKET_DIR:'' @ r) =
     Inr (UnixAddr (Join [hostSocketDir c, r]) ''unix'')"
  unfolding ContainerRunner_ResolveAddr_def
  by (simp only: HasPrefix_append TrimPrefix_append ResolveUnixAddr_unix simp_thms if_True if_False)

subsection \<open>The result of \<open>path.Clean\<close> is in cleaned form\<close>

lemma elems_not_Nil: "elems s \<noteq> []"
  by (induction s) (auto split: list.split)

lemma elems_append_slash: "elems (xs @ CHR ''/'' # ys) = elems xs @ elems ys"
  by (induction xs) (auto split: list.split simp add: elems_not_Nil)

lemma elems_no_slash: "CHR ''/'' \<notin> set e \<Longrightarrow> elems e = [e]"
  by (induction e) auto

lemma good_take_slash:
  assumes "good s" and "i < length s" and "s ! i = CHR ''/''"
  shows "good (take i s)"
proof -
  have "s = take i s @ CHR ''/'' # drop (Suc i) s"
    using assms(2,3) id_take_nth_drop by metis
  then have "elems s = elems (take i s) @ elems (drop (Suc i) s)"
    using elems_append_slash by metis
  moreover have "\<forall>e\<in>set (elems s). e \<noteq> [] \<and> e \<noteq> ''.''"
    using assms(1,2) by (auto simp add: good_def)
  ultimately show ?thesis by (simp add: good_def)
qed

lemma good_append_elem:
  assumes "good s" and "s \<noteq> []" and "CHR ''/'' \<notin> set e" and "e \<noteq> []" and "e \<noteq> ''.''"
  shows "good (s @ CHR ''/'' # e)"
  using assms by (simp add: good_def elems_append_slash elems_no_slash)

lemma good_elem: "CHR ''/'' \<notin> set e \<Longrightarrow> e \<noteq> ''.'' \<Longrightarrow> good e"
  by (auto simp add: good_def elems_no_slash)

lemma backtrack_bounds: "dotdot \<le> w \<Longrightarrow> dotdot \<le> backtrack out dotdot w \<and> backtrack out dotdot w \<le> w"
proof (induction out dotdot w rule: backtrack.induct)
  case (1 out dotdot w)
  show ?case
  proof (cases "w > dotdot \<and> out ! w \<noteq> CHR ''/''")
    case True
    then have "dotdot \<le> w - 1" by arith
    then show ?thesis using "1.IH"[OF True] True by (subst (1 2) backtrack.simps) auto
  next
    case False
    then show ?thesis using "1.prems" by (subst (1 2) backtrack.simps) auto
  qed
qed

lemma backtrack_stop:
  "backtrack out dotdot w \<le> dotdot \<or> out ! (backtrack out dotdot w) = CHR ''/''"
proof (induction out dotdot w rule: backtrack.induct)
  case (1 out dotdot w)
  show ?case
  proof (cases "w > dotdot \<and> out ! w \<noteq> CHR ''/''")
    case True
    then show ?thesis using "1.IH"[OF True] by (subst (1 2) backtrack.simps) auto
  next
    case False
    then show ?thesis by (subst (1 2) backtrack.simps) auto
  qed
qed

lemma elem_takeWhile:
  assumes "c \<noteq> CHR ''/''" and "\<not> dot_elem c rest"
  shows "CHR ''/'' \<notin> set (takeWhile (\<lambda>x. x \<noteq> CHR ''/'') (c # rest))"
    and "takeWhile (\<lambda>x. x \<noteq> CHR ''/'') (c # rest) \<noteq> []"
    and "takeWhile (\<lambda>x. x \<noteq> CHR ''/'') (c # rest) \<noteq> ''.''"
proof -
  show "CHR ''/'' \<notin> set (takeWhile (\<lambda>x. x \<noteq> CHR ''/'') (c # rest))"
    using set_takeWhileD by fastforce
  show "takeWhile (\<lambda>x. x \<noteq> CHR ''/'') (c # rest) \<noteq> []" using assms(1) by simp
  show "takeWhile (\<lambda>x. x \<noteq> CHR ''/'') (c # rest) \<noteq> ''.''"
    using assms by (cases rest) (auto simp add: dot_elem_def)
qed

lemma loop_inv_preserved: "loop_inv rooted st \<Longrightarrow> loop_inv rooted (clean_loop rooted st p)"
proof (induction rooted st p rule: clean_loop.induct)
  case (1 rooted out dotdot)
  then show ?case by simp
next
  case (2 rooted out dotdot c rest)
  note inv = "2.prems"
  consider (slash) "c = CHR ''/''"
    | (dot) "c \<noteq> CHR ''/''" "dot_elem c rest"
    | (dotdot) "c \<noteq> CHR ''/''" "\<not> dot_elem c rest" "dotdot_elem c rest"
    | (elem) "c \<noteq> CHR ''/''" "\<not> dot_elem c rest" "\<not> dotdot_elem c rest"
    by blast
  then show ?case
  proof cases
    case slash
    then show ?thesis using "2.IH"(1) inv by (simp add: loop_slash)
  next
    case dot
    have rb: "c = CHR ''.'' \<and> (rest = [] \<or> hd rest = CHR ''/'')"
      using dot(2) unfolding dot_elem_def .
    show ?thesis using "2.IH"(2)[OF dot(1) rb inv] dot(2) by (simp add: loop_dot)
  next
    case dotdot
    have rb: "\<not> (c = CHR ''.'' \<and> (rest = [] \<or> hd rest = CHR ''/''))"
      using dotdot(2) unfolding dot_elem_def .
    have rd: "c = CHR ''.'' \<and> hd rest = CHR ''.'' \<and> (tl rest = [] \<or> hd (tl rest) = CHR ''/'')"
      using dotdot(3) unfolding dotdot_elem_def .
    note R = loop_dotdot[OF dotdot(2,3), of rooted out dotdot]
    show ?thesis
    proof (cases "dotdot < length out")
      case True
      define w where "w = backtrack out dotdot (length out - 1)"
      have le: "dotdot \<le> length out - 1" using True by arith
      have b: "dotdot \<le> w" "w \<le> length out - 1"
        using backtrack_bounds[OF le, of out] by (simp_all add: w_def)
      have wl: "w < length out" using b(2) True by arith
      have stop: "w \<le> dotdot \<or> out ! w = CHR ''/''"
        using backtrack_stop[of out dotdot "length out - 1"] by (simp add: w_def)
      have "loop_inv rooted (take w out, dotdot)"
      proof (cases rooted)
        case r: True
        then have o: "out \<noteq> []" "hd out = CHR ''/''" "dotdot = 1" "good (tl out)"
          using inv by (simp_all add: loop_inv_def)
        have w1: "1 \<le> w" using b(1) o(3) by simp
        have "good (tl (take w out))"
        proof (cases "w = 1")
          case True
          then show ?thesis by (simp add: good_def tl_take)
        next
          case False
          then have "out ! w = CHR ''/''" using stop o(3) w1 by arith
          then have "tl out ! (w - 1) = CHR ''/''"
            using o(1) w1 by (cases out) (auto simp add: nth_Cons split: nat.splits)
          moreover have "w - 1 < length (tl out)" using wl w1 by simp
          ultimately have "good (take (w - 1) (tl out))" using o(4) good_take_slash by blast
          then show ?thesis by (simp add: tl_take)
        qed
        moreover have "take w out \<noteq> []" "hd (take w out) = CHR ''/''"
          using o(1,2) w1 by (cases out; cases w; simp)+
        ultimately show ?thesis using r o(3) by (simp add: loop_inv_def)
      next
        case nr: False
        then have o: "good out" "dotdot \<le> length out" "good (take dotdot out)"
          using inv by (simp_all add: loop_inv_def)
        have "good (take w out)"
        proof (cases "w = dotdot")
          case True
          then show ?thesis using o(3) by simp
        next
          case False
          then have "out ! w = CHR ''/''" using stop b(1) by arith
          then show ?thesis using o(1) wl good_take_slash by blast
        qed
        moreover have "take dotdot (take w out) = take dotdot out" using b(1) by (simp add: min_def)
        ultimately show ?thesis using nr o(3) b(1) wl by (simp add: loop_inv_def)
      qed
      then show ?thesis
        unfolding R using True "2.IH"(3)[OF dotdot(1) rb rd True] by (simp add: w_def)
    next
      case False
      show ?thesis
      proof (cases rooted)
        case True
        then have nn: "\<not> \<not> rooted" by simp
        show ?thesis
          unfolding R using False True "2.IH"(5)[OF dotdot(1) rb rd False nn inv] by simp
      next
        case nr: False
        then have o: "good out" "dotdot \<le> length out" "good (take dotdot out)"
          using inv by (simp_all add: loop_inv_def)
        let ?x = "(if 0 < length out then out @ ''/'' else out) @ ''..''"
        have "good ?x"
        proof (cases "out = []")
          case True
          then show ?thesis by (simp add: good_def)
        next
          case False
          then show ?thesis using good_append_elem[OF o(1) False, of "''..''"] by simp
        qed
        then have "loop_inv rooted (?x, length ?x)" using nr by (simp add: loop_inv_def)
        then show ?thesis
          unfolding R using False nr "2.IH"(4)[OF dotdot(1) rb rd False nr refl] by simp
      qed
    qed
  next
    case elem
    have rb: "\<not> (c = CHR ''.'' \<and> (rest = [] \<or> hd rest = CHR ''/''))"
      using elem(2) unfolding dot_elem_def .
    have rd: "\<not> (c = CHR ''.'' \<and> hd rest = CHR ''.'' \<and> (tl rest = [] \<or> hd (tl rest) = CHR ''/''))"
      using elem(3) unfolding dotdot_elem_def .
    note R = loop_elem[OF elem, of rooted out dotdot]
    let ?e = "takeWhile (\<lambda>x. x \<noteq> CHR ''/'') (c # rest)"
    let ?x = "(if rooted \<and> length out \<noteq> 1 \<or> \<not> rooted \<and> length out \<noteq> 0 then out @ ''/'' else out)"
    note e = elem_takeWhile[OF elem(1,2)]
    have "loop_inv rooted (?x @ ?e, dotdot)"
    proof (cases rooted)
      case r: True
      then have o: "out \<noteq> []" "hd out = CHR ''/''" "dotdot = 1" "good (tl out)"
        using inv by (simp_all add: loop_inv_def)
      show ?thesis
      proof (cases "length out = 1")
        case True
        then have "tl (out @ ?e) = ?e" using o(1) by (cases out) simp_all
        then show ?thesis using r o True good_elem[OF e(1) e(3)] by (simp add: loop_inv_def)
      next
        case False
        then have t: "tl out \<noteq> []" using o(1) by (cases out) simp_all
        have "tl ((out @ ''/'') @ ?e) = tl out @ CHR ''/'' # ?e" using o(1) by simp
        then show ?thesis
          using r o False good_append_elem[OF o(4) t e] by (simp add: loop_inv_def)
      qed
    next
      case nr: False
      then have o: "good out" "dotdot \<le> length out" "good (take dotdot out)"
        using inv by (simp_all add: loop_inv_def)
      show ?thesis
      proof (cases "out = []")
        case True
        then show ?thesis using nr o good_elem[OF e(1) e(3)] by (simp add: loop_inv_def good_def)
      next
        case False
        then show ?thesis
          using nr o good_append_elem[OF o(1) False e] by (simp add: loop_inv_def)
      qed
    qed
    then show ?thesis
      unfolding R using "2.IH"(6)[OF elem(1) rb rd refl] by simp
  qed
qed


lemma loop_inv_init: "loop_inv rooted (if rooted then (''/'', 1) else ([], 0))"
  by (simp add: loop_inv_def good_def)

lemma loop_inv_clean_state: "loop_inv (hd p = CHR ''/'') (clean_state p)"
  unfolding clean_state_def by (rule loop_inv_preserved) (rule loop_inv_init)

lemma good_not_rooted: "good (c # s) \<Longrightarrow> c \<noteq> CHR ''/''"
  by (auto simp add: good_def)

lemma Clean_cleaned: "cleaned (Clean p)"
proof (cases "p = []")
  case True
  then show ?thesis by (simp add: Clean_Nil)
next
  case False
  obtain out dotdot where st: "clean_state p = (out, dotdot)" by (cases "clean_state p")
  have inv: "loop_inv (hd p = CHR ''/'') (out, dotdot)"
    using loop_inv_clean_state[of p] st by simp
  have c: "Clean p = (if out = [] then ''.'' else out)" using False st by (simp add: Clean_state)
  show ?thesis
  proof (cases "out = []")
    case True
    then show ?thesis using c by simp
  next
    case ne: False
    then obtain a s where o: "out = a # s" by (cases out) auto
    show ?thesis
    proof (cases "hd p = CHR ''/''")
      case True
      then show ?thesis using inv c o by (simp add: loop_inv_def)
    next
      case False
      then have g: "good (a # s)" using inv o by (simp add: loop_inv_def)
      then show ?thesis using c o good_not_rooted[OF g] by simp
    qed
  qed
qed

lemma Join_cleaned: "Join elem = [] \<or> cleaned (Join elem)"
  by (simp add: Join_def Clean_cleaned)

lemma Join_two_cleaned: "h \<noteq> [] \<or> r \<noteq> [] \<Longrightarrow> cleaned (Join [h, r])"
  by (auto simp add: Join_def Clean_cleaned)

subsection \<open>What the operations leave unchanged\<close>

lemma path_cmd_step: "path (cmd_step x c) = path c"
  by (cases x) (simp_all add: CmdRunner_Start_def CmdRunner_Wait_def CmdRunner_Kill_def
      split: sum.split option.split)

lemma path_cmd_run: "path (cmd_run ops c) = path c"
  by (induction ops arbitrary: c) (simp_all add: path_cmd_step)

lemma image_container_step: "c_image (container_step x c) = c_image c"
  by (cases x) (simp_all add: ContainerRunner_Start_def ContainerRunner_Wait_def
      ContainerRunner_Kill_def Let_def split: sum.split option.split received.split)

lemma image_container_run: "c_image (container_run ops c) = c_image c"
  by (induction ops arbitrary: c) (simp_all add: image_container_step)

lemma pid_cmd_step: "\<not> spawns x \<Longrightarrow> pid (cmd_step x c) = pid c"
  by (cases x rule: spawns.cases)
    (simp_all add: CmdRunner_Start_def CmdRunner_Wait_def CmdRunner_Kill_def split: option.split)

lemma pid_cmd_run: "\<forall>x\<in>set ops. \<not> spawns x \<Longrightarrow> pid (cmd_run ops c) = pid c"
  by (induction ops arbitrary: c) (simp_all add: pid_cmd_step)

lemma c_id_container_step: "\<not> creates x \<Longrightarrow> c_id (container_step x c) = c_id c"
  by (cases x rule: creates.cases)
    (simp_all add: ContainerRunner_Start_def ContainerRunner_Wait_def ContainerRunner_Kill_def Let_def
      split: option.split received.split)

lemma c_id_container_run:
  "\<forall>x\<in>set ops. \<not> creates x \<Longrightarrow> c_id (container_run ops c) = c_id c"
  by (induction ops arbitrary: c) (simp_all add: c_id_container_step)

subsection \<open>\<open>Kill\<close> in the world\<close>










section \<open>The claims about the runners\<close>

text \<open>C3. \<open>ContainerRunner.ResolveAddr\<close> returns an error if and only if the network is
  not \<open>unix\<close> or the address does not begin with the prefix \<open>PLUGIN_UNIX_SOCKET_DIR:\<close>; on
  the network \<open>unix\<close> with the prefix missing, the message of the error says that the plugin
  needs an update to be compatible.\<close>

theorem ContainerRunner_ResolveAddr_errors:
  "((\<exists>e. ContainerRunner_ResolveAddr c network address = Inl e) \<longleftrightarrow>
      (network \<noteq> ''unix'' \<or> \<not> HasPrefix address ''PLUGIN_UNIX_SOCKET_DIR:'')) \<and>
   (network = ''unix'' \<and> \<not> HasPrefix address ''PLUGIN_UNIX_SOCKET_DIR:'' \<longrightarrow>
      ContainerRunner_ResolveAddr c network address =
        Inl (errors_New ''plugin is running inside container but needs an update to be compatible'') \<and>
      Contains ''plugin is running inside container but needs an update to be compatible''
        ''needs an update to be compatible'')"
  by (simp add: ContainerRunner_ResolveAddr_def fmt_Errorf_def HasPrefix_def)

theorem ContainerRunner_ResolveAddr_errors_witness:
  "ContainerRunner_ResolveAddr (scenario_ContainerRunner ''/tmp/abc'') ''unix'' ''/tmp/plugin.sock''
     = Inl (errors_New ''plugin is running inside container but needs an update to be compatible'')
   \<and> (\<exists>e. ContainerRunner_ResolveAddr (scenario_ContainerRunner ''/tmp/abc'') ''tcp''
             ''PLUGIN_UNIX_SOCKET_DIR:plugin.sock'' = Inl e)
   \<and> \<not> (\<exists>e. ContainerRunner_ResolveAddr (scenario_ContainerRunner ''/tmp/abc'') ''unix''
             ''PLUGIN_UNIX_SOCKET_DIR:plugin.sock'' = Inl e)"
  using ContainerRunner_ResolveAddr_errors[of "scenario_ContainerRunner ''/tmp/abc''" "''unix''" "''/tmp/plugin.sock''"]
    ContainerRunner_ResolveAddr_errors[of "scenario_ContainerRunner ''/tmp/abc''" "''tcp''" "''PLUGIN_UNIX_SOCKET_DIR:plugin.sock''"]
    ContainerRunner_ResolveAddr_errors[of "scenario_ContainerRunner ''/tmp/abc''" "''unix''" "''PLUGIN_UNIX_SOCKET_DIR:plugin.sock''"]
  by (simp add: HasPrefix_def)

text \<open>C4. Every call of \<open>ContainerRunner.Kill\<close>, whatever the engine answers to the stop
  request, closes the engine client and removes the host rendezvous directory with all it
  holds (\<open>os.RemoveAll\<close>), after the stop request when there is one. With no container id,
  no stop request is issued, the result is \<open>nil\<close> and the two releases are all that happens.
  \<open>Kill\<close> writes no field of the runner, so this holds for each call.\<close>

theorem ContainerRunner_Kill_cleanup:
  "RemoveAll (hostSocketDir c) \<in> set (snd (fst (ContainerRunner_Kill stopped c))) \<and>
   Client_Close (dockerClient c) \<in> set (snd (fst (ContainerRunner_Kill stopped c))) \<and>
   (c_id c = [] \<longrightarrow>
      fst (ContainerRunner_Kill stopped c) =
        (None, [RemoveAll (hostSocketDir c), Client_Close (dockerClient c)])) \<and>
   (c_id c \<noteq> [] \<longrightarrow>
      fst (ContainerRunner_Kill stopped c) =
        (stopped, [ContainerStop (c_id c), RemoveAll (hostSocketDir c),
                   Client_Close (dockerClient c)])) \<and>
   snd (ContainerRunner_Kill stopped c) = c"
  by (simp add: ContainerRunner_Kill_def)

theorem ContainerRunner_Kill_cleanup_witness:
  "fst (ContainerRunner_Kill (Some (errors_New ''No such container''))
          (scenario_ContainerRunner ''/tmp/abc'')) =
     (None, [RemoveAll ''/tmp/abc'', Client_Close 7]) \<and>
   fst (ContainerRunner_Kill (Some (errors_New ''No such container''))
          ((scenario_ContainerRunner ''/tmp/abc'')\<lparr>c_id := ''4f1c''\<rparr>)) =
     (Some (errors_New ''No such container''),
      [ContainerStop ''4f1c'', RemoveAll ''/tmp/abc'', Client_Close 7])"
  using ContainerRunner_Kill_cleanup[of "scenario_ContainerRunner ''/tmp/abc''" "Some (errors_New ''No such container'')"]
    ContainerRunner_Kill_cleanup[of "(scenario_ContainerRunner ''/tmp/abc'')\<lparr>c_id := ''4f1c''\<rparr>" "Some (errors_New ''No such container'')"]
  by (simp add: scenario_ContainerRunner_def)

text \<open>C6. \<open>NewContainerRunner\<close>, given an engine client, succeeds and starts nothing. It
  appends to the mounts of the host config one bind mount from the host rendezvous
  directory to \<open>/tmp\<close>, read-write, with propagation \<open>rshared\<close> and non-recursive; it appends
  to the environment of the command the variable that names the container's rendezvous
  directory and, exactly when the group id is not zero, the variable with the decimal group
  id; and the environment of the container config is the environment so extended.\<close>

theorem NewContainerRunner_mutations:
  "\<exists>k. NewContainerRunner (Inr client) callerCmd cfg hostDir = Inr k \<and>
     Mounts (HostConfig (config k)) =
       Mounts (HostConfig cfg) @
         [\<lparr>Type = TypeBind, Source = hostDir, Target = ''/tmp'', ReadOnly = False,
           BindOptions = Some \<lparr>Propagation = PropagationRShared, NonRecursive = True\<rparr>,
           Consistency = ConsistencyDefault\<rparr>] \<and>
     Env (c_cmd k) =
       Env callerCmd @ [''PLUGIN_UNIX_SOCKET_DIR=/tmp''] @
         (if UnixSocketGroup cfg = 0 then []
          else [''PLUGIN_UNIX_SOCKET_GROUP='' @ Sprintf_d (UnixSocketGroup cfg)]) \<and>
     ContainerEnv (ContainerConfig (config k)) = Env (c_cmd k) \<and>
     c_id k = [] \<and> c_stdout k = None \<and> c_stderr k = None"
  by (simp add: NewContainerRunner_def Let_def EnvUnixSocketDir_def EnvUnixSocketGroup_def
      containerSocketDir_def)

theorem NewContainerRunner_mutations_witness:
  "\<exists>k. NewContainerRunner (Inr 7) scenario_cmd (scenario_config 1000) ''/tmp/abc'' = Inr k \<and>
     Mounts (HostConfig (config k)) =
         [\<lparr>Type = TypeBind, Source = ''/tmp/abc'', Target = ''/tmp'', ReadOnly = False,
           BindOptions = Some \<lparr>Propagation = PropagationRShared, NonRecursive = True\<rparr>,
           Consistency = ConsistencyDefault\<rparr>] \<and>
     Env (c_cmd k) =
       [''HOME=/root'', ''PLUGIN_UNIX_SOCKET_DIR=/tmp'', ''PLUGIN_UNIX_SOCKET_GROUP=1000''] \<and>
     ContainerEnv (ContainerConfig (config k)) =
       [''HOME=/root'', ''PLUGIN_UNIX_SOCKET_DIR=/tmp'', ''PLUGIN_UNIX_SOCKET_GROUP=1000'']"
  using NewContainerRunner_mutations[of 7 scenario_cmd "scenario_config 1000" "''/tmp/abc''"]
  by (auto simp add: scenario_cmd_def scenario_config_def Sprintf_d_def digits.simps)

text \<open>C7. \<open>ContainerRunner.Wait\<close> returns \<open>nil\<close> when the status it receives carries no
  error, an error whose message is the message of the status's error when it carries one,
  and an error received from the error channel as it is.\<close>

theorem ContainerRunner_Wait_results:
  "(Error st = None \<longrightarrow> fst (ContainerRunner_Wait (statusCh st) c) = None) \<and>
   (Error st = Some (WaitExitError msg) \<longrightarrow>
      fst (ContainerRunner_Wait (statusCh st) c) = Some (errors_New msg) \<and>
      error_Error (errors_New msg) = msg) \<and>
   fst (ContainerRunner_Wait (errCh (Some err)) c) = Some err"
  by (simp add: ContainerRunner_Wait_def)

theorem ContainerRunner_Wait_results_witness:
  "fst (ContainerRunner_Wait (statusCh \<lparr>Error = None, StatusCode = 0\<rparr>)
         (scenario_ContainerRunner ''/tmp/abc'')) = None \<and>
   fst (ContainerRunner_Wait (statusCh \<lparr>Error = Some (WaitExitError ''OOM killed''), StatusCode = 137\<rparr>)
         (scenario_ContainerRunner ''/tmp/abc'')) = Some (errors_New ''OOM killed'')"
  using ContainerRunner_Wait_results[where st = "\<lparr>Error = None, StatusCode = 0\<rparr>"
      and c = "scenario_ContainerRunner ''/tmp/abc''"]
    ContainerRunner_Wait_results[where
      st = "\<lparr>Error = Some (WaitExitError ''OOM killed''), StatusCode = 137\<rparr>"
      and msg = "''OOM killed''" and c = "scenario_ContainerRunner ''/tmp/abc''"]
  by simp

text \<open>C8. \<open>CmdRunner.ResolveAddr\<close> supports the networks \<open>tcp\<close> and \<open>unix\<close> and no other: for
  \<open>tcp\<close> the result is that of \<open>net.ResolveTCPAddr\<close>, for \<open>unix\<close> it is the Unix address
  with the given path as its name, and for any other network it is the error
  \<open>Unknown address type\<close>, followed by the address.\<close>

theorem CmdRunner_ResolveAddr_networks:
  "CmdRunner_ResolveAddr ResolveTCPAddr c ''tcp'' address = ResolveTCPAddr ''tcp'' address \<and>
   CmdRunner_ResolveAddr ResolveTCPAddr c ''unix'' address = Inr (UnixAddr address ''unix'') \<and>
   (network \<noteq> ''tcp'' \<and> network \<noteq> ''unix'' \<longrightarrow>
      CmdRunner_ResolveAddr ResolveTCPAddr c network address =
        Inl (errors_New (''Unknown address type: '' @ address)))"
  by (simp add: CmdRunner_ResolveAddr_def fmt_Errorf_def)

theorem CmdRunner_ResolveAddr_networks_witness:
  "CmdRunner_ResolveAddr (\<lambda>n a. Inr (TCPAddr [127, 0, 0, 1] 1234 [])) scenario_CmdRunner
       ''udp'' ''127.0.0.1:1234'' =
     Inl (errors_New ''Unknown address type: 127.0.0.1:1234'')"
  using CmdRunner_ResolveAddr_networks[where
      ResolveTCPAddr = "\<lambda>n a. Inr (TCPAddr [127, 0, 0, 1] 1234 [])"
      and c = scenario_CmdRunner and address = "''127.0.0.1:1234''" and network = "''udp''"]
  by simp

text \<open>C9. \<open>Name()\<close> is defined from construction on and no operation changes it. The
  constructor of the local runner, given the two pipes, yields a runner whose \<open>Name()\<close> is the
  path of the executable as the command has it at construction; the constructor of the
  container runner, given an engine client, yields a runner whose \<open>Name()\<close> is the image of
  the container config. Every sequence of \<open>Start\<close>, \<open>Wait\<close> and \<open>Kill\<close>, whatever the outside
  world answers, leaves \<open>Name()\<close> as it is, from any state of a runner; and both names are
  copies made at construction, which a later change of the command or of the configuration
  does not reach.\<close>

theorem Name_stable:
  "(\<exists>c. NewCmdRunner (Inr out) (Inr errp) callerCmd = Inr c \<and>
        CmdRunner_Name c = Path callerCmd \<and>
        (\<forall>ops. CmdRunner_Name (cmd_run ops c) = Path callerCmd) \<and>
        (\<forall>laterCmd. CmdRunner_Name (c\<lparr>cmd := laterCmd\<rparr>) = Path callerCmd)) \<and>
   (\<exists>k. NewContainerRunner (Inr client) callerCmd cfg hostDir = Inr k \<and>
        ContainerRunner_Name k = ContainerImage (ContainerConfig cfg) \<and>
        (\<forall>cops. ContainerRunner_Name (container_run cops k) = ContainerImage (ContainerConfig cfg)) \<and>
        (\<forall>laterCfg. ContainerRunner_Name (k\<lparr>config := laterCfg\<rparr>) =
           ContainerImage (ContainerConfig cfg))) \<and>
   CmdRunner_Name (cmd_run ops r) = CmdRunner_Name r \<and>
   ContainerRunner_Name (container_run cops q) = ContainerRunner_Name q"
proof -
  let ?c = "\<lparr>cmd = callerCmd, stdout = out, stderr = errp, path = Path callerCmd, pid = 0\<rparr>"
  have a: "\<exists>c. NewCmdRunner (Inr out) (Inr errp) callerCmd = Inr c \<and>
        CmdRunner_Name c = Path callerCmd \<and>
        (\<forall>ops. CmdRunner_Name (cmd_run ops c) = Path callerCmd) \<and>
        (\<forall>laterCmd. CmdRunner_Name (c\<lparr>cmd := laterCmd\<rparr>) = Path callerCmd)"
    by (rule exI[of _ ?c]) (simp add: NewCmdRunner_Inr CmdRunner_Name_def path_cmd_run)
  obtain k where k: "NewContainerRunner (Inr client) callerCmd cfg hostDir = Inr k"
    "c_image k = ContainerImage (ContainerConfig cfg)"
    by (simp add: NewContainerRunner_def Let_def)
  have b: "\<exists>k. NewContainerRunner (Inr client) callerCmd cfg hostDir = Inr k \<and>
        ContainerRunner_Name k = ContainerImage (ContainerConfig cfg) \<and>
        (\<forall>cops. ContainerRunner_Name (container_run cops k) = ContainerImage (ContainerConfig cfg)) \<and>
        (\<forall>laterCfg. ContainerRunner_Name (k\<lparr>config := laterCfg\<rparr>) =
           ContainerImage (ContainerConfig cfg))"
    using k by (intro exI[of _ k]) (simp add: ContainerRunner_Name_def image_container_run)
  show ?thesis
    using a b by (simp add: CmdRunner_Name_def ContainerRunner_Name_def path_cmd_run image_container_run)
qed

theorem Name_stable_witness:
  "NewCmdRunner (Inr 3) (Inr 4) scenario_cmd = Inr scenario_CmdRunner \<and>
   CmdRunner_Name (cmd_run [Cmd_Start (Inr 4242), Cmd_Kill None, Cmd_Wait (Some (errors_New ''signal: killed''))]
      scenario_CmdRunner) = ''/bin/sh'' \<and>
   NewContainerRunner (Inr 7) scenario_cmd (scenario_config 0) ''/tmp/abc'' =
     Inr (scenario_ContainerRunner ''/tmp/abc'') \<and>
   ContainerRunner_Name (container_run
      [Container_Start (Inr ''4f1c'') None (Inr 5) (8, 9),
       Container_Wait (statusCh \<lparr>Error = None, StatusCode = 0\<rparr>),
       Container_Kill None] (scenario_ContainerRunner ''/tmp/abc'')) = ''plugin-image:latest''"
proof -
  note t = Name_stable[where out = 3 and errp = 4 and callerCmd = scenario_cmd and client = 7
      and cfg = "scenario_config 0" and hostDir = "''/tmp/abc''"
      and ops = "[]" and r = scenario_CmdRunner and cops = "[]"
      and q = "scenario_ContainerRunner ''/tmp/abc''"]
  from t obtain c where c: "NewCmdRunner (Inr 3) (Inr 4) scenario_cmd = Inr c"
    "\<forall>ops. CmdRunner_Name (cmd_run ops c) = Path scenario_cmd"
    by blast
  from t obtain k where k:
    "NewContainerRunner (Inr 7) scenario_cmd (scenario_config 0) ''/tmp/abc'' = Inr k"
    "\<forall>cops. ContainerRunner_Name (container_run cops k) =
       ContainerImage (ContainerConfig (scenario_config 0))"
    by blast
  have c': "c = scenario_CmdRunner" using c(1) NewCmdRunner_scenario by simp
  have k': "k = scenario_ContainerRunner ''/tmp/abc''"
    using k(1) NewContainerRunner_scenario[of "''/tmp/abc''"] by simp
  have p: "Path scenario_cmd = ''/bin/sh''" by (simp add: scenario_cmd_def)
  have i: "ContainerImage (ContainerConfig (scenario_config 0)) = ''plugin-image:latest''"
    by (simp add: scenario_config_def)
  show ?thesis
    using c(2) k(2) NewCmdRunner_scenario NewContainerRunner_scenario[of "''/tmp/abc''"]
    unfolding c' k' p i by blast
qed

text \<open>C1, as the code has it. With the network \<open>unix\<close> and the prefix, \<open>ResolveAddr\<close>
  succeeds for every host directory and remainder, and the path of the address is
  \<open>path.Join\<close> of the two. When the host directory is in cleaned form
  (\<open>path.Clean\<close> returns it unchanged) and is neither \<open>/\<close> nor \<open>.\<close>, then for every valid
  basename \<open>b\<close> the path is the host directory, a slash and \<open>b\<close>.\<close>

theorem ResolveAddr_basename:
  "ContainerRunner_ResolveAddr c ''unix'' (''PLUGIN_UNIX_SOCKET_DIR:'' @ b) =
     Inr (UnixAddr (Join [hostSocketDir c, b]) ''unix'') \<and>
   (Clean (hostSocketDir c) = hostSocketDir c \<and> hostSocketDir c \<noteq> ''/'' \<and>
    hostSocketDir c \<noteq> ''.'' \<and> valid_basename b \<longrightarrow>
      ContainerRunner_ResolveAddr c ''unix'' (''PLUGIN_UNIX_SOCKET_DIR:'' @ b) =
        Inr (UnixAddr (hostSocketDir c @ ''/'' @ b) ''unix''))"
proof (intro conjI impI)
  show "ContainerRunner_ResolveAddr c ''unix'' (''PLUGIN_UNIX_SOCKET_DIR:'' @ b) =
     Inr (UnixAddr (Join [hostSocketDir c, b]) ''unix'')"
    by (rule ResolveAddr_unix_prefixed)
next
  assume a: "Clean (hostSocketDir c) = hostSocketDir c \<and> hostSocketDir c \<noteq> ''/'' \<and>
    hostSocketDir c \<noteq> ''.'' \<and> valid_basename b"
  then have ne: "hostSocketDir c \<noteq> []" by (auto simp add: Clean_Nil)
  have "Join [hostSocketDir c, b] = Clean (hostSocketDir c @ ''/'' @ b)"
    using ne by (simp add: Join_two)
  also have "\<dots> = hostSocketDir c @ ''/'' @ b"
    using a by (intro Clean_append_basename) simp_all
  finally show "ContainerRunner_ResolveAddr c ''unix'' (''PLUGIN_UNIX_SOCKET_DIR:'' @ b) =
        Inr (UnixAddr (hostSocketDir c @ ''/'' @ b) ''unix'')"
    by (simp only: ResolveAddr_unix_prefixed)
qed

theorem ResolveAddr_basename_witness:
  "ContainerRunner_ResolveAddr (scenario_ContainerRunner ''/tmp/abc'') ''unix''
     (''PLUGIN_UNIX_SOCKET_DIR:'' @ ''plugin.sock'') =
   Inr (UnixAddr ''/tmp/abc/plugin.sock'' ''unix'')"
proof -
  have h: "hostSocketDir (scenario_ContainerRunner ''/tmp/abc'') = ''/tmp/abc''"
    by (simp add: scenario_ContainerRunner_def)
  have cl: "Clean ''/tmp/abc'' = ''/tmp/abc''" by code_simp
  have vb: "valid_basename ''plugin.sock''" by (simp add: valid_basename_def)
  note ResolveAddr_basename[of "scenario_ContainerRunner ''/tmp/abc''" "''plugin.sock''",
      THEN conjunct2]
  then show ?thesis
    using cl vb unfolding h by simp
qed

text \<open>C1 as stated, for any host directory, fails on a host directory that is not in
  cleaned form: with the host directory \<open>/tmp/abc/\<close> and the basename \<open>plugin.sock\<close> the
  path is \<open>/tmp/abc/plugin.sock\<close> and not \<open>/tmp/abc//plugin.sock\<close>.\<close>

theorem ResolveAddr_basename_unclean_hostDir:
  "valid_basename ''plugin.sock'' \<and>
   ContainerRunner_ResolveAddr (scenario_ContainerRunner ''/tmp/abc/'') ''unix''
     (''PLUGIN_UNIX_SOCKET_DIR:'' @ ''plugin.sock'') =
   Inr (UnixAddr ''/tmp/abc/plugin.sock'' ''unix'') \<and>
   ''/tmp/abc/plugin.sock'' \<noteq> ''/tmp/abc/'' @ ''/'' @ ''plugin.sock''"
proof -
  have j: "Join [''/tmp/abc/'', ''plugin.sock''] = ''/tmp/abc/plugin.sock''" by code_simp
  have vb: "valid_basename ''plugin.sock''" by (simp add: valid_basename_def)
  have r: "ContainerRunner_ResolveAddr (scenario_ContainerRunner ''/tmp/abc/'') ''unix''
     (''PLUGIN_UNIX_SOCKET_DIR:'' @ ''plugin.sock'') = Inr (UnixAddr ''/tmp/abc/plugin.sock'' ''unix'')"
    by (simp only: ResolveAddr_unix_prefixed) (simp add: scenario_ContainerRunner_def j)
  show ?thesis using vb r by simp
qed

text \<open>C2, as the code has it. Before \<open>Start\<close> succeeds, \<open>CmdRunner.ID()\<close> is \<open>0\<close>, the decimal
  string of the pid not yet set: after construction and through every sequence of operations
  without a \<open>Start\<close> that spawns the process. \<open>ContainerRunner.ID()\<close> is the empty string after
  construction and until a \<open>Start\<close> has the engine create the container; from then on it is
  the id that the engine returned, also when that \<open>Start\<close> goes on to fail. After a \<open>Start\<close>
  that succeeds, \<open>CmdRunner.ID()\<close> is the decimal string of the pid, which is never empty, and
  \<open>ContainerRunner.ID()\<close> is the id that the engine returned, empty only if that id is; both
  stay so through \<open>Wait\<close> and \<open>Kill\<close>.\<close>

theorem ID_lifecycle:
  "(\<exists>c. NewCmdRunner (Inr out) (Inr errp) callerCmd = Inr c \<and> CmdRunner_ID c = ''0'' \<and>
        (\<forall>ops. (\<forall>x\<in>set ops. \<not> spawns x) \<longrightarrow> CmdRunner_ID (cmd_run ops c) = ''0'')) \<and>
   (\<exists>k. NewContainerRunner (Inr client) callerCmd cfg hostDir = Inr k \<and>
        ContainerRunner_ID k = [] \<and>
        (\<forall>cops. (\<forall>x\<in>set cops. \<not> creates x) \<longrightarrow>
           ContainerRunner_ID (container_run cops k) = [])) \<and>
   CmdRunner_Start (Inl e) r = (Some e, r) \<and>
   fst (CmdRunner_Start (Inr p) r) = None \<and>
   CmdRunner_ID (snd (CmdRunner_Start (Inr p) r)) = Sprintf_d p \<and>
   Sprintf_d p \<noteq> [] \<and>
   ((\<forall>x\<in>set ops. \<not> spawns x) \<longrightarrow>
      CmdRunner_ID (cmd_run ops (snd (CmdRunner_Start (Inr p) r))) = Sprintf_d p) \<and>
   ContainerRunner_Start (Inl e) started logs pipes q = (Some e, q) \<and>
   ContainerRunner_ID (snd (ContainerRunner_Start (Inr i) started logs pipes q)) = i \<and>
   fst (ContainerRunner_Start (Inr i) (Some e) logs pipes q) = Some e \<and>
   fst (ContainerRunner_Start (Inr i) None (Inl e) pipes q) = Some e \<and>
   fst (ContainerRunner_Start (Inr i) None (Inr logReader) pipes q) = None \<and>
   (ContainerRunner_ID (snd (ContainerRunner_Start (Inr i) None (Inr logReader) pipes q)) = []) =
     (i = []) \<and>
   ((\<forall>x\<in>set cops. \<not> creates x) \<longrightarrow>
      ContainerRunner_ID
        (container_run cops (snd (ContainerRunner_Start (Inr i) started logs pipes q))) = i)"
proof -
  let ?c = "\<lparr>cmd = callerCmd, stdout = out, stderr = errp, path = Path callerCmd, pid = 0\<rparr>"
  have a: "\<exists>c. NewCmdRunner (Inr out) (Inr errp) callerCmd = Inr c \<and> CmdRunner_ID c = ''0'' \<and>
        (\<forall>ops. (\<forall>x\<in>set ops. \<not> spawns x) \<longrightarrow> CmdRunner_ID (cmd_run ops c) = ''0'')"
    by (rule exI[of _ ?c]) (simp add: NewCmdRunner_Inr CmdRunner_ID_def pid_cmd_run Sprintf_d_0)
  obtain k where k: "NewContainerRunner (Inr client) callerCmd cfg hostDir = Inr k" "c_id k = []"
    by (simp add: NewContainerRunner_def Let_def)
  have b: "\<exists>k. NewContainerRunner (Inr client) callerCmd cfg hostDir = Inr k \<and>
        ContainerRunner_ID k = [] \<and>
        (\<forall>cops. (\<forall>x\<in>set cops. \<not> creates x) \<longrightarrow>
           ContainerRunner_ID (container_run cops k) = [])"
    using k by (intro exI[of _ k]) (simp add: ContainerRunner_ID_def c_id_container_run)
  have s: "c_id (snd (ContainerRunner_Start (Inr i) started logs pipes q)) = i"
    by (simp add: ContainerRunner_Start_def Let_def split: option.split sum.split)
  show ?thesis
    using a b s
    by (simp add: CmdRunner_Start_def CmdRunner_ID_def ContainerRunner_ID_def Sprintf_d_not_Nil
        pid_cmd_run c_id_container_run ContainerRunner_Start_def)
qed

theorem ID_lifecycle_witness:
  "NewCmdRunner (Inr 3) (Inr 4) scenario_cmd = Inr scenario_CmdRunner \<and>
   CmdRunner_ID (cmd_run [Cmd_Kill None, Cmd_Start (Inl (errors_New ''exec: not found''))]
      scenario_CmdRunner) = ''0'' \<and>
   CmdRunner_ID (cmd_run [Cmd_Kill None, Cmd_Wait (Some (errors_New ''signal: killed''))]
      (snd (CmdRunner_Start (Inr 4242) scenario_CmdRunner))) = ''4242'' \<and>
   ContainerRunner_ID (container_run [Container_Wait (errCh None), Container_Kill None]
      (snd (ContainerRunner_Start (Inr ''4f1c'') None (Inr 5) (8, 9)
         (scenario_ContainerRunner ''/tmp/abc'')))) = ''4f1c''"
proof -
  note t = ID_lifecycle[where out = 3 and errp = 4
      and callerCmd = scenario_cmd and client = 7
      and cfg = "scenario_config 0" and hostDir = "''/tmp/abc''"
      and p = 4242 and r = scenario_CmdRunner
      and ops = "[Cmd_Kill None, Cmd_Wait (Some (errors_New ''signal: killed''))]"
      and i = "''4f1c''" and started = None and logs = "Inr 5" and pipes = "(8, 9)"
      and q = "scenario_ContainerRunner ''/tmp/abc''"
      and cops = "[Container_Wait (errCh None), Container_Kill None]"
      and e = "errors_New ''exec: not found''" and logReader = 5]
  have d: "Sprintf_d 4242 = ''4242''" by (simp add: Sprintf_d_def digits.simps)
  from t obtain c where c: "NewCmdRunner (Inr 3) (Inr 4) scenario_cmd = Inr c"
    "\<forall>ops. (\<forall>x\<in>set ops. \<not> spawns x) \<longrightarrow> CmdRunner_ID (cmd_run ops c) = ''0''"
    by blast
  have c': "c = scenario_CmdRunner" using c(1) NewCmdRunner_scenario by simp
  have z: "CmdRunner_ID (cmd_run [Cmd_Kill None, Cmd_Start (Inl (errors_New ''exec: not found''))]
      scenario_CmdRunner) = ''0''"
  proof -
    have ns: "\<forall>x\<in>set [Cmd_Kill None, Cmd_Start (Inl (errors_New ''exec: not found''))].
        \<not> spawns x" by simp
    show ?thesis using c(2) ns unfolding c' by blast
  qed
  show ?thesis
    using t z d NewCmdRunner_scenario by simp
qed

text \<open>C2 as stated fails in three places. Before \<open>Start\<close> the \<open>ID()\<close> of the local runner is
  \<open>0\<close>, not the empty string. When the engine creates the container \<open>4f1c\<close> and then fails to
  start it, \<open>Start\<close> fails and \<open>ContainerRunner.ID()\<close> is \<open>4f1c\<close>, not the empty string. When
  the engine answers the creation with an empty id, \<open>Start\<close> succeeds and
  \<open>ContainerRunner.ID()\<close> is empty.\<close>

theorem ID_claim_fails:
  "NewCmdRunner (Inr 3) (Inr 4) scenario_cmd = Inr scenario_CmdRunner \<and>
   CmdRunner_ID scenario_CmdRunner = ''0'' \<and>
   NewContainerRunner (Inr 7) scenario_cmd (scenario_config 0) ''/tmp/abc'' =
     Inr (scenario_ContainerRunner ''/tmp/abc'') \<and>
   fst (ContainerRunner_Start (Inr ''4f1c'') (Some (errors_New ''driver failed'')) (Inr 5) (8, 9)
          (scenario_ContainerRunner ''/tmp/abc'')) = Some (errors_New ''driver failed'') \<and>
   ContainerRunner_ID
     (snd (ContainerRunner_Start (Inr ''4f1c'') (Some (errors_New ''driver failed'')) (Inr 5) (8, 9)
          (scenario_ContainerRunner ''/tmp/abc''))) = ''4f1c'' \<and>
   fst (ContainerRunner_Start (Inr []) None (Inr 5) (8, 9)
          (scenario_ContainerRunner ''/tmp/abc'')) = None \<and>
   ContainerRunner_ID
     (snd (ContainerRunner_Start (Inr []) None (Inr 5) (8, 9)
          (scenario_ContainerRunner ''/tmp/abc''))) = []"
  by (simp add: NewCmdRunner_scenario NewContainerRunner_scenario CmdRunner_ID_def
      scenario_CmdRunner_def Sprintf_d_0 ContainerRunner_Start_def ContainerRunner_ID_def)




text \<open>C10, as the code has it. \<open>ContainerRunner.ResolveAddr\<close> joins the remainder after the
  prefix onto the host rendezvous directory with \<open>path.Join\<close>, which cleans the path. The
  prefix alone resolves to the cleaned host directory (to the empty path for an empty host
  directory), which is the host directory itself exactly when that is empty or in cleaned
  form. The path is in cleaned form, without a doubled slash and without a \<open>.\<close> element, and
  a doubled slash or a \<open>.\<close> element in the remainder resolves as the remainder without it.
  With \<open>..\<close> elements the path can lie outside the host directory, as
  \<open>../../etc/plugin.sock\<close> under \<open>/tmp/abc\<close> resolves to \<open>/etc/plugin.sock\<close>, not to the
  concatenation.\<close>

theorem ResolveAddr_cleaning_join:
  "ContainerRunner_ResolveAddr c ''unix'' (''PLUGIN_UNIX_SOCKET_DIR:'' @ r) =
     Inr (UnixAddr (Join [hostSocketDir c, r]) ''unix'') \<and>
   ContainerRunner_ResolveAddr c ''unix'' ''PLUGIN_UNIX_SOCKET_DIR:'' =
     Inr (UnixAddr (if hostSocketDir c = [] then [] else Clean (hostSocketDir c)) ''unix'') \<and>
   (ContainerRunner_ResolveAddr c ''unix'' ''PLUGIN_UNIX_SOCKET_DIR:'' =
      Inr (UnixAddr (hostSocketDir c) ''unix'')) =
     (hostSocketDir c = [] \<or> Clean (hostSocketDir c) = hostSocketDir c) \<and>
   (hostSocketDir c \<noteq> [] \<or> r \<noteq> [] \<longrightarrow> cleaned (Join [hostSocketDir c, r])) \<and>
   ContainerRunner_ResolveAddr c ''unix'' (''PLUGIN_UNIX_SOCKET_DIR:'' @ u @ ''//'' @ v) =
     ContainerRunner_ResolveAddr c ''unix'' (''PLUGIN_UNIX_SOCKET_DIR:'' @ u @ ''/'' @ v) \<and>
   ContainerRunner_ResolveAddr c ''unix'' (''PLUGIN_UNIX_SOCKET_DIR:'' @ u @ ''/./'' @ v) =
     ContainerRunner_ResolveAddr c ''unix'' (''PLUGIN_UNIX_SOCKET_DIR:'' @ u @ ''/'' @ v) \<and>
   ContainerRunner_ResolveAddr (scenario_ContainerRunner ''/tmp/abc'') ''unix''
      (''PLUGIN_UNIX_SOCKET_DIR:'' @ ''../../etc/plugin.sock'') =
     Inr (UnixAddr ''/etc/plugin.sock'' ''unix'') \<and>
   \<not> HasPrefix ''/etc/plugin.sock'' ''/tmp/abc'' \<and>
   ''/etc/plugin.sock'' \<noteq> ''/tmp/abc'' @ ''/'' @ ''../../etc/plugin.sock''"
proof -
  let ?h = "hostSocketDir c"
  have j: "Join [?h, []] = (if ?h = [] then [] else Clean ?h)"
    by (simp add: Join_two Clean_trailing_slash)
  have alone: "ContainerRunner_ResolveAddr c ''unix'' ''PLUGIN_UNIX_SOCKET_DIR:'' =
      Inr (UnixAddr (if ?h = [] then [] else Clean ?h) ''unix'')"
    using ResolveAddr_unix_prefixed[of c "[]"] j by simp
  have itself: "(ContainerRunner_ResolveAddr c ''unix'' ''PLUGIN_UNIX_SOCKET_DIR:'' =
      Inr (UnixAddr ?h ''unix'')) = (?h = [] \<or> Clean ?h = ?h)"
    unfolding alone by (auto simp add: Clean_Nil)
  have ds: "Join [?h, u @ ''//'' @ v] = Join [?h, u @ ''/'' @ v]"
    using Clean_double_slash[of "?h @ ''/'' @ u" v] Clean_double_slash[of u v]
    by (simp add: Join_two)
  have dt: "Join [?h, u @ ''/./'' @ v] = Join [?h, u @ ''/'' @ v]"
    using Clean_dot_segment[of "?h @ ''/'' @ u" v] Clean_dot_segment[of u v]
    by (simp add: Join_two)
  have ex: "Join [''/tmp/abc'', ''../../etc/plugin.sock''] = ''/etc/plugin.sock''" by code_simp
  have exr: "ContainerRunner_ResolveAddr (scenario_ContainerRunner ''/tmp/abc'') ''unix''
      (''PLUGIN_UNIX_SOCKET_DIR:'' @ ''../../etc/plugin.sock'') =
     Inr (UnixAddr ''/etc/plugin.sock'' ''unix'')"
    by (simp only: ResolveAddr_unix_prefixed) (simp add: scenario_ContainerRunner_def ex)
  have np: "\<not> HasPrefix ''/etc/plugin.sock'' ''/tmp/abc''" by (simp add: HasPrefix_def)
  have cf: "?h \<noteq> [] \<or> r \<noteq> [] \<longrightarrow> cleaned (Join [?h, r])"
    using Join_two_cleaned by blast
  have first: "ContainerRunner_ResolveAddr c ''unix'' (''PLUGIN_UNIX_SOCKET_DIR:'' @ r) =
     Inr (UnixAddr (Join [?h, r]) ''unix'')"
    by (rule ResolveAddr_unix_prefixed)
  have dsr: "ContainerRunner_ResolveAddr c ''unix'' (''PLUGIN_UNIX_SOCKET_DIR:'' @ u @ ''//'' @ v) =
     ContainerRunner_ResolveAddr c ''unix'' (''PLUGIN_UNIX_SOCKET_DIR:'' @ u @ ''/'' @ v)"
    by (simp only: ResolveAddr_unix_prefixed ds)
  have dtr: "ContainerRunner_ResolveAddr c ''unix'' (''PLUGIN_UNIX_SOCKET_DIR:'' @ u @ ''/./'' @ v) =
     ContainerRunner_ResolveAddr c ''unix'' (''PLUGIN_UNIX_SOCKET_DIR:'' @ u @ ''/'' @ v)"
    by (simp only: ResolveAddr_unix_prefixed dt)
  have neq: "''/etc/plugin.sock'' \<noteq> ''/tmp/abc'' @ ''/'' @ ''../../etc/plugin.sock''" by simp
  show ?thesis
    by (intro conjI first alone itself cf dsr dtr exr np neq)
qed

theorem ResolveAddr_cleaning_join_witness:
  "ContainerRunner_ResolveAddr (scenario_ContainerRunner ''/tmp/abc'') ''unix''
      ''PLUGIN_UNIX_SOCKET_DIR:'' = Inr (UnixAddr ''/tmp/abc'' ''unix'') \<and>
   ContainerRunner_ResolveAddr (scenario_ContainerRunner ''/tmp/abc'') ''unix''
      (''PLUGIN_UNIX_SOCKET_DIR:'' @ ''run'' @ ''//'' @ ''plugin.sock'') =
   ContainerRunner_ResolveAddr (scenario_ContainerRunner ''/tmp/abc'') ''unix''
      (''PLUGIN_UNIX_SOCKET_DIR:'' @ ''run'' @ ''/'' @ ''plugin.sock'') \<and>
   ContainerRunner_ResolveAddr (scenario_ContainerRunner ''/tmp/abc'') ''unix''
      (''PLUGIN_UNIX_SOCKET_DIR:'' @ ''./run//plugin.sock'') =
     Inr (UnixAddr ''/tmp/abc/run/plugin.sock'' ''unix'') \<and>
   cleaned ''/tmp/abc/run/plugin.sock''"
proof -
  have h: "hostSocketDir (scenario_ContainerRunner ''/tmp/abc'') = ''/tmp/abc''"
    by (simp add: scenario_ContainerRunner_def)
  have cl: "Clean ''/tmp/abc'' = ''/tmp/abc''" by code_simp
  have jn: "Join [''/tmp/abc'', ''./run//plugin.sock''] = ''/tmp/abc/run/plugin.sock''"
    by code_simp
  note t = ResolveAddr_cleaning_join[of "scenario_ContainerRunner ''/tmp/abc''"
      "''./run//plugin.sock''" "''run''" "''plugin.sock''"]
  have a: "ContainerRunner_ResolveAddr (scenario_ContainerRunner ''/tmp/abc'') ''unix''
      ''PLUGIN_UNIX_SOCKET_DIR:'' = Inr (UnixAddr ''/tmp/abc'' ''unix'')"
    using t[THEN conjunct2, THEN conjunct1] cl unfolding h by simp
  have b: "ContainerRunner_ResolveAddr (scenario_ContainerRunner ''/tmp/abc'') ''unix''
      (''PLUGIN_UNIX_SOCKET_DIR:'' @ ''./run//plugin.sock'') =
     Inr (UnixAddr ''/tmp/abc/run/plugin.sock'' ''unix'')"
    using t[THEN conjunct1] unfolding h jn .
  have d: "cleaned ''/tmp/abc/run/plugin.sock''"
    using t[THEN conjunct2, THEN conjunct2, THEN conjunct2, THEN conjunct1] unfolding h jn
    by simp
  show ?thesis
    using a b d t[THEN conjunct2, THEN conjunct2, THEN conjunct2, THEN conjunct2, THEN conjunct1]
    by simp
qed

text \<open>C10 as stated fails on a host directory that is not in cleaned form: with the host
  directory \<open>/tmp/abc/\<close> the prefix alone resolves to \<open>/tmp/abc\<close>, not to the host directory
  itself.\<close>

theorem ResolveAddr_prefix_alone_unclean_hostDir:
  "hostSocketDir (scenario_ContainerRunner ''/tmp/abc/'') = ''/tmp/abc/'' \<and>
   ContainerRunner_ResolveAddr (scenario_ContainerRunner ''/tmp/abc/'') ''unix''
      ''PLUGIN_UNIX_SOCKET_DIR:'' = Inr (UnixAddr ''/tmp/abc'' ''unix'') \<and>
   ''/tmp/abc'' \<noteq> ''/tmp/abc/''"
proof -
  have j: "Join [''/tmp/abc/'', []] = ''/tmp/abc''" by code_simp
  have r: "ContainerRunner_ResolveAddr (scenario_ContainerRunner ''/tmp/abc/'') ''unix''
      (''PLUGIN_UNIX_SOCKET_DIR:'' @ []) = Inr (UnixAddr ''/tmp/abc'' ''unix'')"
    by (simp only: ResolveAddr_unix_prefixed) (simp add: scenario_ContainerRunner_def j)
  show ?thesis using r by (simp add: scenario_ContainerRunner_def)
qed

end
